theory Spec2Isabelle
  imports
    Main
    "HOL-Library.Word"
    "HOL-Library.List_Lexorder"
    "HOL-Library.Char_ord"
    "HOL-Library.Sublist"
    "HOL-Library.AList"
    "HOL-Library.Multiset"
begin

section \<open>Bytes and texts\<close>

text \<open>
  A byte is an 8-bit word and a buffer is a list of bytes. A JavaScript string is held as
  a \<^typ>\<open>string\<close>, one character per byte of its UTF-8 encoding, so that
  \<open>Buffer.from(s)\<close> is the byte-for-byte image of the text and the length of the buffer is the
  number of encoded bytes. Lists of bytes are ordered lexicographically with a proper prefix
  below its extensions, which is the order of \<open>Buffer.compare\<close>.
\<close>

type_synonym byte = "8 word"
type_synonym bytes = "byte list"

definition Buffer_from :: "string \<Rightarrow> bytes" where
  "Buffer_from s = map of_char s"

definition Buffer_toString :: "bytes \<Rightarrow> string" where
  "Buffer_toString bs = map (\<lambda>b. char_of (unat b)) bs"

section \<open>The Clarity value model\<close>

text \<open>
  Modelled from the spec: the Clarity value classes of \<open>packages/transactions/src/clarity\<close>
  are not among the sources (only their tests are). The closed tagged union of section 3 of
  the specification, one constructor per variant of its table. A principal carries its
  version byte and its hash; a tuple carries its entries in insertion order, as the keys of
  a JavaScript object are kept.
\<close>

datatype ClarityValue =
    IntCV int
  | UIntCV int
  | BufferCV bytes
  | TrueCV
  | FalseCV
  | StandardPrincipalCV byte bytes
  | ContractPrincipalCV byte bytes string
  | ResponseOkCV ClarityValue
  | ResponseErrorCV ClarityValue
  | NoneCV
  | SomeCV ClarityValue
  | ListCV "ClarityValue list"
  | TupleCV "(string \<times> ClarityValue) list"
  | StringAsciiCV string
  | StringUtf8CV string

text \<open>
  Modelled from the spec: the values that the constructors of the absent value model can
  build and the wire format of section 3 can carry. Integers fit 128 bits (signed for Int,
  unsigned for UInt); buffer, string, list and tuple sizes fit the unsigned 32-bit length
  field; a principal hash has 20 bytes; a contract name and a tuple key fit the 1-byte
  length field; the keys of a tuple are pairwise different (they are the keys of one
  object); an ASCII string has no byte from 0x80 on.
\<close>

definition isInt128 :: "int \<Rightarrow> bool" where
  "isInt128 i = (- (2 ^ 127) \<le> i \<and> i < 2 ^ 127)"

definition isUInt128 :: "int \<Rightarrow> bool" where
  "isUInt128 i = (0 \<le> i \<and> i < 2 ^ 128)"

fun constructible :: "ClarityValue \<Rightarrow> bool" where
  "constructible (IntCV i) = isInt128 i"
| "constructible (UIntCV i) = isUInt128 i"
| "constructible (BufferCV b) = (length b < 2 ^ 32)"
| "constructible TrueCV = True"
| "constructible FalseCV = True"
| "constructible (StandardPrincipalCV v h) = (length h = 20)"
| "constructible (ContractPrincipalCV v h n) = (length h = 20 \<and> length n < 256)"
| "constructible (ResponseOkCV x) = constructible x"
| "constructible (ResponseErrorCV x) = constructible x"
| "constructible NoneCV = True"
| "constructible (SomeCV x) = constructible x"
| "constructible (ListCV xs) = (length xs < 2 ^ 32 \<and> list_all constructible xs)"
| "constructible (TupleCV kvs) =
     (length kvs < 2 ^ 32 \<and> distinct (map fst kvs) \<and>
      list_all (\<lambda>(k, v). length k < 256 \<and> constructible v) kvs)"
| "constructible (StringAsciiCV s) =
     (length s < 2 ^ 32 \<and> list_all (\<lambda>b. b < 128) (Buffer_from s))"
| "constructible (StringUtf8CV s) = (length s < 2 ^ 32)"

section \<open>The Clarity codec\<close>

text \<open>
  A member of a list of values, and the value of an entry of a tuple, is smaller than the
  whole: the recursion of the functions on values is well founded.
\<close>

lemma size_item: "x \<in> set xs \<Longrightarrow> size (x :: ClarityValue) < Suc (size_list size xs)"
  by (induction xs) auto

lemma size_entry:
  "(k, v) \<in> set kvs \<Longrightarrow> size (v :: ClarityValue) < Suc (size_list (size_prod (\<lambda>x. 0) size) kvs)"
  by (induction kvs) auto

text \<open>
  Modelled from the spec: a big-endian unsigned field of \<open>k\<close> bytes (the 16-byte integer
  block, the 4-byte length and count fields and the 1-byte name and key length fields of
  the table of section 3).
\<close>

fun be_bytes :: "nat \<Rightarrow> int \<Rightarrow> bytes" where
  "be_bytes 0 n = []"
| "be_bytes (Suc k) n = be_bytes k (n div 256) @ [word_of_int (n mod 256)]"

text \<open>
  Modelled from the spec: the 16-byte big-endian two's-complement block of an integer
  (for a value that is not negative, its unsigned block).
\<close>

definition int128_bytes :: "int \<Rightarrow> bytes" where
  "int128_bytes i = be_bytes 16 (i mod 2 ^ 128)"

text \<open>
  Modelled from the spec: the entries of a tuple in canonical order, sorted by the bytes of
  their keys (lexicographic by byte value, a proper prefix first).
\<close>

definition sortedEntries :: "(string \<times> 'a) list \<Rightarrow> (string \<times> 'a) list" where
  "sortedEntries kvs = sort_key (\<lambda>(k, v). Buffer_from k) kvs"

text \<open>
  Modelled from the spec: \<open>serializeCV\<close> of \<open>packages/transactions/src/clarity\<close> is not
  among the sources. Section 4.2: the 1-byte type tag, then the payload of the variant as
  the table of section 3 lays it out; nested values depth-first; an integer as the 16-byte
  two's-complement block of its value; the entries of a tuple sorted by key bytes before
  they are written.
\<close>

function serializeCV :: "ClarityValue \<Rightarrow> bytes" where
  "serializeCV (IntCV i) = 0 # int128_bytes i"
| "serializeCV (UIntCV i) = 1 # int128_bytes i"
| "serializeCV (BufferCV b) = 2 # be_bytes 4 (int (length b)) @ b"
| "serializeCV TrueCV = [3]"
| "serializeCV FalseCV = [4]"
| "serializeCV (StandardPrincipalCV v h) = 5 # v # h"
| "serializeCV (ContractPrincipalCV v h n) =
     6 # v # h @ be_bytes 1 (int (length (Buffer_from n))) @ Buffer_from n"
| "serializeCV (ResponseOkCV x) = 7 # serializeCV x"
| "serializeCV (ResponseErrorCV x) = 8 # serializeCV x"
| "serializeCV NoneCV = [9]"
| "serializeCV (SomeCV x) = 10 # serializeCV x"
| "serializeCV (ListCV xs) =
     11 # be_bytes 4 (int (length xs)) @ concat (map serializeCV xs)"
| "serializeCV (TupleCV kvs) =
     12 # be_bytes 4 (int (length kvs)) @
     concat (map (\<lambda>(k, v). be_bytes 1 (int (length (Buffer_from k))) @ Buffer_from k @ serializeCV v)
       (sortedEntries kvs))"
| "serializeCV (StringAsciiCV s) =
     13 # be_bytes 4 (int (length (Buffer_from s))) @ Buffer_from s"
| "serializeCV (StringUtf8CV s) =
     14 # be_bytes 4 (int (length (Buffer_from s))) @ Buffer_from s"
  by pat_completeness auto
termination
  by (relation "measure size") (auto simp: sortedEntries_def dest: size_entry size_item)

section \<open>The byte reader\<close>

text \<open>
  Modelled from the spec: the errors of the decoder (section 7 and section 4.1), a malformed
  input and a read past the end of the buffer.
\<close>

datatype codec_error = DecodeError | OutOfBounds

text \<open>
  Modelled from the spec: \<open>BufferReader\<close> of \<open>packages/transactions/src/bufferReader\<close> is
  not among the sources. Section 4.1: a byte buffer with a cursor that starts at 0.
\<close>

record BufferReader =
  buffer :: bytes
  cursor :: nat

definition newBufferReader :: "bytes \<Rightarrow> BufferReader" where
  "newBufferReader b = \<lparr>buffer = b, cursor = 0\<rparr>"

text \<open>
  Modelled from the spec: \<open>readByte()\<close> returns the next byte and advances by 1; it fails
  with OutOfBounds when the cursor has reached the length.
\<close>

definition readByte :: "BufferReader \<Rightarrow> codec_error + (byte \<times> BufferReader)" where
  "readByte r =
     (if cursor r \<ge> length (buffer r) then Inl OutOfBounds
      else Inr (buffer r ! cursor r, r\<lparr>cursor := cursor r + 1\<rparr>))"

text \<open>
  Modelled from the spec: \<open>readBuffer(n)\<close> returns the next \<open>n\<close> bytes and advances by \<open>n\<close>;
  it fails with OutOfBounds if fewer than \<open>n\<close> bytes remain.
\<close>

definition readBuffer :: "nat \<Rightarrow> BufferReader \<Rightarrow> codec_error + (bytes \<times> BufferReader)" where
  "readBuffer n r =
     (if length (buffer r) - cursor r < n then Inl OutOfBounds
      else Inr (take n (drop (cursor r) (buffer r)), r\<lparr>cursor := cursor r + n\<rparr>))"

text \<open>
  Sequencing of fallible steps: the first failure is the result, as a thrown exception
  leaves the rest of a function body unexecuted.
\<close>

fun andThen :: "'e + 'a \<Rightarrow> ('a \<Rightarrow> 'e + 'b) \<Rightarrow> 'e + 'b" where
  "andThen (Inl e) f = Inl e"
| "andThen (Inr x) f = f x"

section \<open>Decoding\<close>

text \<open>
  Modelled from the spec: the unsigned value of a big-endian block of bytes.
\<close>

definition be_value :: "bytes \<Rightarrow> int" where
  "be_value bs = foldl (\<lambda>a b. a * 256 + uint b) 0 bs"

text \<open>
  Modelled from the spec: a 16-byte block reinterpreted as a signed integer by the
  two's-complement rule.
\<close>

definition signed128 :: "bytes \<Rightarrow> int" where
  "signed128 bs = (if be_value bs \<ge> 2 ^ 127 then be_value bs - 2 ^ 128 else be_value bs)"

text \<open>
  Modelled from the spec: the 4-byte big-endian length or count field, read from the cursor.
\<close>

definition readUInt32 :: "BufferReader \<Rightarrow> codec_error + (nat \<times> BufferReader)" where
  "readUInt32 r = andThen (readBuffer 4 r) (\<lambda>(bs, r'). Inr (nat (be_value bs), r'))"

text \<open>
  Modelled from the spec: \<open>deserializeCV\<close> of \<open>packages/transactions/src/clarity\<close> is not
  among the sources. Section 4.2: one tag byte is read and the decoder of that tag is
  entered; nested values are decoded by re-entering the decoder on the shared cursor; a tag
  outside the 15 known ones, and an ASCII string with a byte from 0x80 on, fail with
  DecodeError; a length that asks for more bytes than remain fails in the reader. The 16-byte
  block is read as two's complement for Int and as unsigned for UInt. The entries of a tuple
  are stored under their keys in the order read.

  The first argument bounds the nesting depth, so that the recursion is well founded. Every
  nested value starts with a tag byte of its own, so a bound of the number of bytes of the
  input is never reached before the reader is out of bytes, and reaching it is reported as
  the reader reports that (lemma \<open>deserializeCV_at_depth\<close> below: every bound of at least
  the number of remaining bytes gives the same result).
\<close>

fun deserializeCV_at :: "nat \<Rightarrow> BufferReader \<Rightarrow> codec_error + (ClarityValue \<times> BufferReader)"
and deserializeList ::
      "nat \<Rightarrow> nat \<Rightarrow> BufferReader \<Rightarrow> codec_error + (ClarityValue list \<times> BufferReader)"
and deserializeTuple ::
      "nat \<Rightarrow> nat \<Rightarrow> (string \<times> ClarityValue) list \<Rightarrow> BufferReader
        \<Rightarrow> codec_error + ((string \<times> ClarityValue) list \<times> BufferReader)"
where
  "deserializeCV_at 0 r = Inl OutOfBounds"
| "deserializeCV_at (Suc depth) r =
     andThen (readByte r) (\<lambda>(tag, r).
       if tag = 0 then
         andThen (readBuffer 16 r) (\<lambda>(bs, r). Inr (IntCV (signed128 bs), r))
       else if tag = 1 then
         andThen (readBuffer 16 r) (\<lambda>(bs, r). Inr (UIntCV (be_value bs), r))
       else if tag = 2 then
         andThen (readUInt32 r) (\<lambda>(n, r).
         andThen (readBuffer n r) (\<lambda>(bs, r). Inr (BufferCV bs, r)))
       else if tag = 3 then Inr (TrueCV, r)
       else if tag = 4 then Inr (FalseCV, r)
       else if tag = 5 then
         andThen (readByte r) (\<lambda>(v, r).
         andThen (readBuffer 20 r) (\<lambda>(h, r). Inr (StandardPrincipalCV v h, r)))
       else if tag = 6 then
         andThen (readByte r) (\<lambda>(v, r).
         andThen (readBuffer 20 r) (\<lambda>(h, r).
         andThen (readByte r) (\<lambda>(n, r).
         andThen (readBuffer (unat n) r) (\<lambda>(name, r).
           Inr (ContractPrincipalCV v h (Buffer_toString name), r)))))
       else if tag = 7 then
         andThen (deserializeCV_at depth r) (\<lambda>(x, r). Inr (ResponseOkCV x, r))
       else if tag = 8 then
         andThen (deserializeCV_at depth r) (\<lambda>(x, r). Inr (ResponseErrorCV x, r))
       else if tag = 9 then Inr (NoneCV, r)
       else if tag = 10 then
         andThen (deserializeCV_at depth r) (\<lambda>(x, r). Inr (SomeCV x, r))
       else if tag = 11 then
         andThen (readUInt32 r) (\<lambda>(n, r).
         andThen (deserializeList depth n r) (\<lambda>(xs, r). Inr (ListCV xs, r)))
       else if tag = 12 then
         andThen (readUInt32 r) (\<lambda>(n, r).
         andThen (deserializeTuple depth n [] r) (\<lambda>(kvs, r). Inr (TupleCV kvs, r)))
       else if tag = 13 then
         andThen (readUInt32 r) (\<lambda>(n, r).
         andThen (readBuffer n r) (\<lambda>(bs, r).
           if list_all (\<lambda>b. b < 128) bs then Inr (StringAsciiCV (Buffer_toString bs), r)
           else Inl DecodeError))
       else if tag = 14 then
         andThen (readUInt32 r) (\<lambda>(n, r).
         andThen (readBuffer n r) (\<lambda>(bs, r). Inr (StringUtf8CV (Buffer_toString bs), r)))
       else Inl DecodeError)"
| "deserializeList depth 0 r = Inr ([], r)"
| "deserializeList depth (Suc n) r =
     andThen (deserializeCV_at depth r) (\<lambda>(x, r).
     andThen (deserializeList depth n r) (\<lambda>(xs, r). Inr (x # xs, r)))"
| "deserializeTuple depth 0 acc r = Inr (acc, r)"
| "deserializeTuple depth (Suc n) acc r =
     andThen (readByte r) (\<lambda>(klen, r).
     andThen (readBuffer (unat klen) r) (\<lambda>(k, r).
     andThen (deserializeCV_at depth r) (\<lambda>(v, r).
       deserializeTuple depth n (AList.update (Buffer_toString k) v acc) r)))"

text \<open>
  Modelled from the spec: \<open>deserializeCV\<close> on a whole buffer, as the helper
  \<open>serializeDeserialize\<close> of the tests calls it: a reader is put on the buffer and one value
  is decoded from its start.
\<close>

definition deserializeCV :: "bytes \<Rightarrow> codec_error + ClarityValue" where
  "deserializeCV b =
     andThen (deserializeCV_at (length b) (newBufferReader b)) (\<lambda>(v, r). Inr v)"

text \<open>
  The canonical form of a value: the entries of every tuple in it are put in the order of
  their key bytes. Two values are structurally equal under canonical tuple-key ordering
  when their canonical forms are the same.
\<close>

function canonical :: "ClarityValue \<Rightarrow> ClarityValue" where
  "canonical (IntCV i) = IntCV i"
| "canonical (UIntCV i) = UIntCV i"
| "canonical (BufferCV b) = BufferCV b"
| "canonical TrueCV = TrueCV"
| "canonical FalseCV = FalseCV"
| "canonical (StandardPrincipalCV v h) = StandardPrincipalCV v h"
| "canonical (ContractPrincipalCV v h n) = ContractPrincipalCV v h n"
| "canonical (ResponseOkCV x) = ResponseOkCV (canonical x)"
| "canonical (ResponseErrorCV x) = ResponseErrorCV (canonical x)"
| "canonical NoneCV = NoneCV"
| "canonical (SomeCV x) = SomeCV (canonical x)"
| "canonical (ListCV xs) = ListCV (map canonical xs)"
| "canonical (TupleCV kvs) = TupleCV (map (\<lambda>(k, v). (k, canonical v)) (sortedEntries kvs))"
| "canonical (StringAsciiCV s) = StringAsciiCV s"
| "canonical (StringUtf8CV s) = StringUtf8CV s"
  by pat_completeness auto
termination
  by (relation "measure size") (auto simp: sortedEntries_def dest: size_entry size_item)

definition structurallyEqual :: "ClarityValue \<Rightarrow> ClarityValue \<Rightarrow> bool" where
  "structurallyEqual a b = (canonical a = canonical b)"

text \<open>
  The hexadecimal rendering \<open>buffer.toString('hex')\<close> of Node's Buffer, two lowercase digits
  per byte, in which the test vectors are written.
\<close>

definition hexDigit :: "nat \<Rightarrow> char" where
  "hexDigit d = ''0123456789abcdef'' ! d"

definition toHex :: "bytes \<Rightarrow> string" where
  "toHex bs = concat (map (\<lambda>b. [hexDigit (unat b div 16), hexDigit (unat b mod 16)]) bs)"

text \<open>
  Three notions for reasoning about a reader: the bytes it has not consumed yet, the
  reader after \<open>n\<close> more bytes have been consumed, and the number of bytes that remain.
\<close>

definition pending :: "BufferReader \<Rightarrow> bytes" where
  "pending r = drop (cursor r) (buffer r)"

definition advance :: "nat \<Rightarrow> BufferReader \<Rightarrow> BufferReader" where
  "advance n r = r\<lparr>cursor := cursor r + n\<rparr>"

definition remaining :: "BufferReader \<Rightarrow> nat" where
  "remaining r = length (buffer r) - cursor r"

text \<open>
  The bytes of one tuple entry, as \<open>serializeCV\<close> writes it: the 1-byte key length, the key
  bytes, the serialized value.
\<close>

definition entryBytes :: "string \<times> ClarityValue \<Rightarrow> bytes" where
  "entryBytes = (\<lambda>(k, v). be_bytes 1 (int (length (Buffer_from k))) @ Buffer_from k @ serializeCV v)"

text \<open>
  A value nested five levels deep, with a tuple whose keys are not in canonical order.
\<close>

definition nestedExample :: ClarityValue where
  "nestedExample =
     ListCV [TupleCV [(''b'', SomeCV (ResponseOkCV (ListCV [IntCV (- 1), UIntCV 7]))),
                      (''a'', ResponseErrorCV (StringAsciiCV ''no'')),
                      (''ab'', BufferCV [0xde, 0xad])],
             NoneCV]"

section \<open>The name registry operations\<close>

text \<open>
  The functions of the BNS package (the source file that starts with
  \<open>BNS_CONTRACT_NAME\<close>). They are asynchronous: an exception thrown in the body and a
  rejected promise of a collaborator are both the left summand of the result.
\<close>

datatype js_error =
    Error string
  | TypeError

text \<open>
  An optional string option of a JavaScript options object is truthy when it is present and
  not the empty string; the guards \<open>if (subdomain)\<close> and \<open>if (zonefile)\<close> test exactly this.
\<close>

fun truthy :: "string option \<Rightarrow> bool" where
  "truthy None = False"
| "truthy (Some s) = (s \<noteq> [])"

text \<open>
  A branch on such a guard: \<open>whenTruthy x f d\<close> is \<open>f\<close> of the string when the option is
  truthy, and \<open>d\<close> otherwise.
\<close>

fun whenTruthy :: "string option \<Rightarrow> (string \<Rightarrow> 'a) \<Rightarrow> 'a \<Rightarrow> 'a" where
  "whenTruthy None f d = d"
| "whenTruthy (Some s) f d = (if s \<noteq> [] then f s else d)"

text \<open>
  The rendering of an integral number inside a template literal: its decimal digits, after
  a minus sign when it is negative.
\<close>

function decimalDigits :: "int \<Rightarrow> string" where
  "decimalDigits n =
     (if n < 10 then [''0123456789'' ! nat n]
      else decimalDigits (n div 10) @ [''0123456789'' ! nat (n mod 10)])"
  by pat_completeness auto
termination
  by (relation "measure nat") auto

definition numberToString :: "int \<Rightarrow> string" where
  "numberToString n = (if n < 0 then ''-'' @ decimalDigits (- n) else decimalDigits n)"

record StacksNetwork =
  chainId :: int

text \<open>
  The result of \<open>decodeFQN\<close>: the parts of a fully qualified name, the subdomain being
  optional.
\<close>

record FQN =
  fqn_subdomain :: "string option"
  fqn_namespace :: string
  fqn_name :: string

datatype AnchorMode = OnChainOnly | OffChainOnly | Any

text \<open>
  The interface \<open>BnsContractCallOptions\<close>. The names of the fields of the records carry a
  prefix, since the options of the functions below have the same names.
\<close>

record BnsContractCallOptions =
  call_functionName :: string
  call_functionArgs :: "ClarityValue list"
  call_publicKey :: string
  call_network :: StacksNetwork
  call_attachment :: "bytes option"

text \<open>
  The options object that \<open>makeBnsContractCall\<close> builds for \<open>makeUnsignedContractCall\<close>. It
  has no attachment field.
\<close>

record UnsignedContractCallOptions =
  tx_contractAddress :: string
  tx_contractName :: string
  tx_functionName :: string
  tx_functionArgs :: "ClarityValue list"
  tx_publicKey :: string
  tx_validateWithAbi :: bool
  tx_network :: StacksNetwork
  tx_anchorMode :: AnchorMode

text \<open>The options object that \<open>callReadOnlyBnsFunction\<close> builds for \<open>callReadOnlyFunction\<close>.\<close>

record ReadOnlyFunctionOptions =
  ro_contractAddress :: string
  ro_contractName :: string
  ro_functionName :: string
  ro_senderAddress :: string
  ro_functionArgs :: "ClarityValue list"
  ro_network :: StacksNetwork

text \<open>
  What the package imports from modules that are not among the sources, taken as
  parameters: the two enumerators of \<open>ChainID\<close>; the helpers \<open>decodeFQN\<close>,
  \<open>getZonefileHash\<close> and \<open>bufferCVFromString\<close> of \<open>./utils\<close>; the digests under \<open>hash160\<close>; the
  renderings \<open>cvToString\<close> and \<open>getCVTypeString\<close>; the transaction maker and the remote
  read-only call, which may fail; and the address derived from the fresh random key
  (\<open>getAddressFromPrivateKey(privateKeyToString(makeRandomPrivKey()))\<close>), which differs from
  call to call. The type \<open>'tx\<close> is the type of transactions.
\<close>

record 'tx Imports =
  ChainID_Mainnet :: int
  ChainID_Testnet :: int
  decodeFQN :: "string \<Rightarrow> FQN"
  getZonefileHash :: "string \<Rightarrow> bytes"
  bufferCVFromString :: "string \<Rightarrow> ClarityValue"
  sha256 :: "bytes \<Rightarrow> bytes"
  ripemd160 :: "bytes \<Rightarrow> bytes"
  cvToString :: "ClarityValue \<Rightarrow> string"
  getCVTypeString :: "ClarityValue \<Rightarrow> string"
  makeUnsignedContractCall :: "UnsignedContractCallOptions \<Rightarrow> js_error + 'tx"
  callReadOnlyFunction :: "ReadOnlyFunctionOptions \<Rightarrow> js_error + ClarityValue"
  randomAddress :: string

text \<open>
  Modelled from the spec: \<open>hash160\<close> of the transactions package is not among the sources.
  Section 4.4: a double-hash scheme, a cryptographic digest (SHA-256) and then a second,
  shorter digest (RIPEMD-160) over that output.
\<close>

definition hash160 :: "'tx Imports \<Rightarrow> bytes \<Rightarrow> bytes" where
  "hash160 e b = ripemd160 e (sha256 e b)"

text \<open>
  Modelled from the spec: the constructors \<open>bufferCV\<close> and \<open>uintCV\<close> of the absent value
  model build the Buffer and the UInt variant of section 3.
\<close>

definition bufferCV :: "bytes \<Rightarrow> ClarityValue" where
  "bufferCV b = BufferCV b"

definition uintCV :: "int \<Rightarrow> ClarityValue" where
  "uintCV n = UIntCV n"

definition BNS_CONTRACT_NAME :: string where
  "BNS_CONTRACT_NAME = ''bns''"

definition BnsContractAddress_mainnet :: string where
  "BnsContractAddress_mainnet = ''SP000000000000000000002Q6VF78''"

definition BnsContractAddress_testnet :: string where
  "BnsContractAddress_testnet = ''ST000000000000000000002AMW42H''"

definition getBnsContractAddress :: "'tx Imports \<Rightarrow> StacksNetwork \<Rightarrow> js_error + string" where
  "getBnsContractAddress e network =
     (if chainId network = ChainID_Mainnet e then Inr BnsContractAddress_mainnet
      else if chainId network = ChainID_Testnet e then Inr BnsContractAddress_testnet
      else Inl (Error (''Unexpected ChainID: '' @ numberToString (chainId network))))"

definition makeBnsContractCall :: "'tx Imports \<Rightarrow> BnsContractCallOptions \<Rightarrow> js_error + 'tx" where
  "makeBnsContractCall e options =
     andThen (getBnsContractAddress e (call_network options)) (\<lambda>address.
       makeUnsignedContractCall e
         \<lparr>tx_contractAddress = address,
          tx_contractName = BNS_CONTRACT_NAME,
          tx_functionName = call_functionName options,
          tx_functionArgs = call_functionArgs options,
          tx_publicKey = call_publicKey options,
          tx_validateWithAbi = False,
          tx_network = call_network options,
          tx_anchorMode = Any\<rparr>)"

text \<open>
  \<open>callReadOnlyBnsFunction\<close>; its options are passed one by one, in the order in which the
  callers write them.
\<close>

definition callReadOnlyBnsFunction ::
  "'tx Imports \<Rightarrow> string \<Rightarrow> string \<Rightarrow> ClarityValue list \<Rightarrow> StacksNetwork \<Rightarrow> js_error + ClarityValue"
where
  "callReadOnlyBnsFunction e functionName senderAddress functionArgs network =
     andThen (getBnsContractAddress e network) (\<lambda>address.
       callReadOnlyFunction e
         \<lparr>ro_contractAddress = address,
          ro_contractName = BNS_CONTRACT_NAME,
          ro_functionName = functionName,
          ro_senderAddress = senderAddress,
          ro_functionArgs = functionArgs,
          ro_network = network\<rparr>)"

subsection \<open>The read-only queries\<close>

definition canRegisterName :: "'tx Imports \<Rightarrow> string \<Rightarrow> StacksNetwork \<Rightarrow> js_error + bool" where
  "canRegisterName e fullyQualifiedName network =
     (let fqn = decodeFQN e fullyQualifiedName in
      if truthy (fqn_subdomain fqn) then Inl (Error ''Cannot register a subdomain using registerName'')
      else
        andThen
          (callReadOnlyBnsFunction e ''can-name-be-registered'' (randomAddress e)
             [bufferCVFromString e (fqn_namespace fqn), bufferCVFromString e (fqn_name fqn)] network)
          (\<lambda>responseCV.
             case responseCV of
               ResponseOkCV v \<Rightarrow> Inr (v = TrueCV)
             | _ \<Rightarrow> Inr False))"

definition getNamespacePrice :: "'tx Imports \<Rightarrow> string \<Rightarrow> StacksNetwork \<Rightarrow> js_error + int" where
  "getNamespacePrice e namespace network =
     andThen
       (callReadOnlyBnsFunction e ''get-namespace-price'' (randomAddress e)
          [bufferCVFromString e namespace] network)
       (\<lambda>responseCV.
          case responseCV of
            ResponseOkCV v \<Rightarrow>
              (case v of
                 IntCV n \<Rightarrow> Inr n
               | UIntCV n \<Rightarrow> Inr n
               | _ \<Rightarrow> Inl (Error ''Response did not contain a number''))
          | ResponseErrorCV v \<Rightarrow> Inl (Error (cvToString e v))
          | _ \<Rightarrow> Inl (Error (''Unexpected Clarity Value type: '' @ getCVTypeString e responseCV)))"

text \<open>
  In \<open>getNamePrice\<close> every response that is not a Response-Ok is cast to a Response-Err and
  its \<open>value\<close> field is rendered. An Optional-Some has a Clarity value in that field too; the
  other variants have none, or a number, and what the absent \<open>cvToString\<close> does with it is
  not determined by the sources: the model reports a \<open>TypeError\<close> there.
\<close>

definition getNamePrice :: "'tx Imports \<Rightarrow> string \<Rightarrow> StacksNetwork \<Rightarrow> js_error + int" where
  "getNamePrice e fullyQualifiedName network =
     (let fqn = decodeFQN e fullyQualifiedName in
      if truthy (fqn_subdomain fqn) then Inl (Error ''Cannot get subdomain name price'')
      else
        andThen
          (callReadOnlyBnsFunction e ''get-name-price'' (randomAddress e)
             [bufferCVFromString e (fqn_namespace fqn), bufferCVFromString e (fqn_name fqn)] network)
          (\<lambda>responseCV.
             case responseCV of
               ResponseOkCV v \<Rightarrow>
                 (case v of
                    IntCV n \<Rightarrow> Inr n
                  | UIntCV n \<Rightarrow> Inr n
                  | _ \<Rightarrow> Inl (Error ''Response did not contain a number''))
             | ResponseErrorCV v \<Rightarrow> Inl (Error (cvToString e v))
             | SomeCV v \<Rightarrow> Inl (Error (cvToString e v))
             | _ \<Rightarrow> Inl TypeError))"

subsection \<open>The transaction builders\<close>

text \<open>
  Each builder checks its options, computes the function arguments and hands an options
  object to \<open>makeBnsContractCall\<close>. For every builder \<open>b\<close> the function \<open>b_call\<close> is that first
  part: the exception thrown by the check, or the options object handed over. The options
  of a builder are passed one by one, in the order of its parameter pattern.
\<close>

definition buildPreorderNamespaceTx_call ::
  "'tx Imports \<Rightarrow> string \<Rightarrow> string \<Rightarrow> int \<Rightarrow> string \<Rightarrow> StacksNetwork
     \<Rightarrow> js_error + BnsContractCallOptions"
where
  "buildPreorderNamespaceTx_call e namespace salt stxToBurn publicKey network =
     (let saltedNamespaceBuffer = Buffer_from (namespace @ salt);
          hashedSaltedNamespace = hash160 e saltedNamespaceBuffer
      in Inr \<lparr>call_functionName = ''namespace-preorder'',
              call_functionArgs = [bufferCV hashedSaltedNamespace, uintCV stxToBurn],
              call_publicKey = publicKey,
              call_network = network,
              call_attachment = None\<rparr>)"

definition buildPreorderNamespaceTx ::
  "'tx Imports \<Rightarrow> string \<Rightarrow> string \<Rightarrow> int \<Rightarrow> string \<Rightarrow> StacksNetwork \<Rightarrow> js_error + 'tx"
where
  "buildPreorderNamespaceTx e namespace salt stxToBurn publicKey network =
     andThen (buildPreorderNamespaceTx_call e namespace salt stxToBurn publicKey network)
       (makeBnsContractCall e)"

definition buildPreorderNameTx_call ::
  "'tx Imports \<Rightarrow> string \<Rightarrow> string \<Rightarrow> int \<Rightarrow> string \<Rightarrow> StacksNetwork
     \<Rightarrow> js_error + BnsContractCallOptions"
where
  "buildPreorderNameTx_call e fullyQualifiedName salt stxToBurn publicKey network =
     (let fqn = decodeFQN e fullyQualifiedName in
      if truthy (fqn_subdomain fqn) then Inl (Error ''Cannot preorder a subdomain using preorderName()'')
      else
        let saltedNamesBuffer = Buffer_from (fullyQualifiedName @ salt);
            hashedSaltedName = hash160 e saltedNamesBuffer
        in Inr \<lparr>call_functionName = ''name-preorder'',
                call_functionArgs = [bufferCV hashedSaltedName, uintCV stxToBurn],
                call_publicKey = publicKey,
                call_network = network,
                call_attachment = None\<rparr>)"

definition buildPreorderNameTx ::
  "'tx Imports \<Rightarrow> string \<Rightarrow> string \<Rightarrow> int \<Rightarrow> string \<Rightarrow> StacksNetwork \<Rightarrow> js_error + 'tx"
where
  "buildPreorderNameTx e fullyQualifiedName salt stxToBurn publicKey network =
     andThen (buildPreorderNameTx_call e fullyQualifiedName salt stxToBurn publicKey network)
       (makeBnsContractCall e)"

definition buildRegisterNameTx_call ::
  "'tx Imports \<Rightarrow> string \<Rightarrow> string \<Rightarrow> string \<Rightarrow> string \<Rightarrow> StacksNetwork
     \<Rightarrow> js_error + BnsContractCallOptions"
where
  "buildRegisterNameTx_call e fullyQualifiedName salt zonefile publicKey network =
     (let fqn = decodeFQN e fullyQualifiedName in
      if truthy (fqn_subdomain fqn) then Inl (Error ''Cannot register a subdomain using registerName()'')
      else
        let zonefileHash = getZonefileHash e zonefile
        in Inr \<lparr>call_functionName = ''name-register'',
                call_functionArgs =
                  [bufferCVFromString e (fqn_namespace fqn),
                   bufferCVFromString e (fqn_name fqn),
                   bufferCVFromString e salt,
                   bufferCV zonefileHash],
                call_publicKey = publicKey,
                call_network = network,
                call_attachment = Some (Buffer_from zonefile)\<rparr>)"

definition buildRegisterNameTx ::
  "'tx Imports \<Rightarrow> string \<Rightarrow> string \<Rightarrow> string \<Rightarrow> string \<Rightarrow> StacksNetwork \<Rightarrow> js_error + 'tx"
where
  "buildRegisterNameTx e fullyQualifiedName salt zonefile publicKey network =
     andThen (buildRegisterNameTx_call e fullyQualifiedName salt zonefile publicKey network)
       (makeBnsContractCall e)"

definition buildUpdateNameTx_call ::
  "'tx Imports \<Rightarrow> string \<Rightarrow> string \<Rightarrow> string \<Rightarrow> StacksNetwork
     \<Rightarrow> js_error + BnsContractCallOptions"
where
  "buildUpdateNameTx_call e fullyQualifiedName zonefile publicKey network =
     (let fqn = decodeFQN e fullyQualifiedName in
      if truthy (fqn_subdomain fqn) then Inl (Error ''Cannot update a subdomain using updateName()'')
      else
        let zonefileHash = getZonefileHash e zonefile
        in Inr \<lparr>call_functionName = ''name-update'',
                call_functionArgs =
                  [bufferCVFromString e (fqn_namespace fqn),
                   bufferCVFromString e (fqn_name fqn),
                   bufferCV zonefileHash],
                call_publicKey = publicKey,
                call_network = network,
                call_attachment = Some (Buffer_from zonefile)\<rparr>)"

definition buildUpdateNameTx ::
  "'tx Imports \<Rightarrow> string \<Rightarrow> string \<Rightarrow> string \<Rightarrow> StacksNetwork \<Rightarrow> js_error + 'tx"
where
  "buildUpdateNameTx e fullyQualifiedName zonefile publicKey network =
     andThen (buildUpdateNameTx_call e fullyQualifiedName zonefile publicKey network)
       (makeBnsContractCall e)"

definition buildTransferNameTx_call ::
  "'tx Imports \<Rightarrow> string \<Rightarrow> string \<Rightarrow> string option \<Rightarrow> string \<Rightarrow> StacksNetwork
     \<Rightarrow> js_error + BnsContractCallOptions"
where
  "buildTransferNameTx_call e fullyQualifiedName newOwnerAddress zonefile publicKey network =
     (let fqn = decodeFQN e fullyQualifiedName in
      if truthy (fqn_subdomain fqn) then Inl (Error ''Cannot transfer a subdomain using transferName()'')
      else
        let functionArgs0 =
              [bufferCVFromString e (fqn_namespace fqn),
               bufferCVFromString e (fqn_name fqn),
               bufferCVFromString e newOwnerAddress];
            functionArgs1 =
              whenTruthy zonefile
                (\<lambda>z. functionArgs0 @ [bufferCV (getZonefileHash e z)])
                functionArgs0
        in Inr \<lparr>call_functionName = ''name-transfer'',
                call_functionArgs = functionArgs1,
                call_publicKey = publicKey,
                call_network = network,
                call_attachment = whenTruthy zonefile (\<lambda>z. Some (Buffer_from z)) None\<rparr>)"

definition buildTransferNameTx ::
  "'tx Imports \<Rightarrow> string \<Rightarrow> string \<Rightarrow> string option \<Rightarrow> string \<Rightarrow> StacksNetwork \<Rightarrow> js_error + 'tx"
where
  "buildTransferNameTx e fullyQualifiedName newOwnerAddress zonefile publicKey network =
     andThen (buildTransferNameTx_call e fullyQualifiedName newOwnerAddress zonefile publicKey network)
       (makeBnsContractCall e)"

definition buildRevokeNameTx_call ::
  "'tx Imports \<Rightarrow> string \<Rightarrow> string \<Rightarrow> StacksNetwork \<Rightarrow> js_error + BnsContractCallOptions"
where
  "buildRevokeNameTx_call e fullyQualifiedName publicKey network =
     (let fqn = decodeFQN e fullyQualifiedName in
      if truthy (fqn_subdomain fqn) then Inl (Error ''Cannot revoke a subdomain using revokeName()'')
      else
        Inr \<lparr>call_functionName = ''name-revoke'',
             call_functionArgs = [bufferCVFromString e (fqn_namespace fqn), bufferCVFromString e (fqn_name fqn)],
             call_publicKey = publicKey,
             call_network = network,
             call_attachment = None\<rparr>)"

definition buildRevokeNameTx ::
  "'tx Imports \<Rightarrow> string \<Rightarrow> string \<Rightarrow> StacksNetwork \<Rightarrow> js_error + 'tx"
where
  "buildRevokeNameTx e fullyQualifiedName publicKey network =
     andThen (buildRevokeNameTx_call e fullyQualifiedName publicKey network)
       (makeBnsContractCall e)"

definition buildRenewNameTx_call ::
  "'tx Imports \<Rightarrow> string \<Rightarrow> int \<Rightarrow> string option \<Rightarrow> string option \<Rightarrow> string \<Rightarrow> StacksNetwork
     \<Rightarrow> js_error + BnsContractCallOptions"
where
  "buildRenewNameTx_call e fullyQualifiedName stxToBurn newOwnerAddress zonefile publicKey network =
     (let fqn = decodeFQN e fullyQualifiedName in
      if truthy (fqn_subdomain fqn) then Inl (Error ''Cannot renew a subdomain using renewName()'')
      else
        let functionArgs0 =
              [bufferCVFromString e (fqn_namespace fqn),
               bufferCVFromString e (fqn_name fqn),
               uintCV stxToBurn];
            functionArgs1 =
              whenTruthy newOwnerAddress
                (\<lambda>a. functionArgs0 @ [bufferCVFromString e a])
                functionArgs0;
            functionArgs2 =
              whenTruthy zonefile
                (\<lambda>z. functionArgs1 @ [bufferCV (getZonefileHash e z)])
                functionArgs1
        in Inr \<lparr>call_functionName = ''name-renewal'',
                call_functionArgs = functionArgs2,
                call_publicKey = publicKey,
                call_network = network,
                call_attachment = whenTruthy zonefile (\<lambda>z. Some (Buffer_from z)) None\<rparr>)"

definition buildRenewNameTx ::
  "'tx Imports \<Rightarrow> string \<Rightarrow> int \<Rightarrow> string option \<Rightarrow> string option \<Rightarrow> string \<Rightarrow> StacksNetwork
     \<Rightarrow> js_error + 'tx"
where
  "buildRenewNameTx e fullyQualifiedName stxToBurn newOwnerAddress zonefile publicKey network =
     andThen
       (buildRenewNameTx_call e fullyQualifiedName stxToBurn newOwnerAddress zonefile publicKey network)
       (makeBnsContractCall e)"

subsection \<open>Notions used in the statements\<close>

text \<open>
  The commitment of a preorder: the first function argument of the options object that the
  builder hands over.
\<close>

definition commitmentOf :: "js_error + BnsContractCallOptions \<Rightarrow> ClarityValue option" where
  "commitmentOf r =
     (case r of
        Inl err \<Rightarrow> None
      | Inr c \<Rightarrow> (case call_functionArgs c of [] \<Rightarrow> None | x # xs \<Rightarrow> Some x))"

text \<open>
  The request that results from a builder: the options of an unsigned call of a function
  of the BNS contract at an address, as \<open>makeBnsContractCall\<close> fills them in. It has a field
  for each of the options of \<open>makeUnsignedContractCall\<close> that are set, and none for an
  attachment.
\<close>

definition unsignedBnsCall ::
  "string \<Rightarrow> string \<Rightarrow> ClarityValue list \<Rightarrow> string \<Rightarrow> StacksNetwork
     \<Rightarrow> UnsignedContractCallOptions"
where
  "unsignedBnsCall address functionName functionArgs publicKey network =
     \<lparr>tx_contractAddress = address,
      tx_contractName = ''bns'',
      tx_functionName = functionName,
      tx_functionArgs = functionArgs,
      tx_publicKey = publicKey,
      tx_validateWithAbi = False,
      tx_network = network,
      tx_anchorMode = Any\<rparr>"

text \<open>
  The arguments of \<open>name-transfer\<close> and of \<open>name-renewal\<close> that come before the zone file
  hash: the namespace, the name, and the new owner (for a renewal the amount to burn, and
  the new owner only when that option is truthy).
\<close>

definition transferBaseArgs :: "'tx Imports \<Rightarrow> string \<Rightarrow> string \<Rightarrow> ClarityValue list" where
  "transferBaseArgs e fullyQualifiedName newOwnerAddress =
     [bufferCVFromString e (fqn_namespace (decodeFQN e fullyQualifiedName)),
      bufferCVFromString e (fqn_name (decodeFQN e fullyQualifiedName)),
      bufferCVFromString e newOwnerAddress]"

definition renewBaseArgs ::
  "'tx Imports \<Rightarrow> string \<Rightarrow> int \<Rightarrow> string option \<Rightarrow> ClarityValue list" where
  "renewBaseArgs e fullyQualifiedName stxToBurn newOwnerAddress =
     [bufferCVFromString e (fqn_namespace (decodeFQN e fullyQualifiedName)),
      bufferCVFromString e (fqn_name (decodeFQN e fullyQualifiedName)),
      uintCV stxToBurn] @
     whenTruthy newOwnerAddress (\<lambda>a. [bufferCVFromString e a]) []"

subsection \<open>Stand-ins for the imports\<close>

text \<open>
  Concrete functions in the place of the imports, on which the statements below are
  exercised. The name decoder splits at the dots: three or more parts are a subdomain, a name
  and a namespace; fewer are a name and a namespace. The digests, the zone file hash and the
  renderings are simple placeholders. The remote endpoint of \<open>sampleImports\<close> answers every
  query with \<open>(ok u640000)\<close>, that of \<open>failingImports\<close> with the contract-level error
  \<open>(err 1001)\<close>.
\<close>

fun splitAt :: "char \<Rightarrow> string \<Rightarrow> string \<Rightarrow> string list" where
  "splitAt c acc [] = [rev acc]"
| "splitAt c acc (x # xs) = (if x = c then rev acc # splitAt c [] xs else splitAt c (x # acc) xs)"

definition sampleDecodeFQN :: "string \<Rightarrow> FQN" where
  "sampleDecodeFQN fqdn =
     (case splitAt CHR ''.'' [] fqdn of
        s # n # ns # _ \<Rightarrow> \<lparr>fqn_subdomain = Some s, fqn_namespace = ns, fqn_name = n\<rparr>
      | [n, ns] \<Rightarrow> \<lparr>fqn_subdomain = None, fqn_namespace = ns, fqn_name = n\<rparr>
      | [n] \<Rightarrow> \<lparr>fqn_subdomain = None, fqn_namespace = [], fqn_name = n\<rparr>
      | [] \<Rightarrow> \<lparr>fqn_subdomain = None, fqn_namespace = [], fqn_name = []\<rparr>)"

fun sampleCvToString :: "ClarityValue \<Rightarrow> string" where
  "sampleCvToString (IntCV n) = numberToString n"
| "sampleCvToString (UIntCV n) = ''u'' @ numberToString n"
| "sampleCvToString TrueCV = ''true''"
| "sampleCvToString FalseCV = ''false''"
| "sampleCvToString NoneCV = ''none''"
| "sampleCvToString _ = ''(value)''"

definition sampleImports :: "UnsignedContractCallOptions Imports" where
  "sampleImports =
     \<lparr>ChainID_Mainnet = 1,
      ChainID_Testnet = 2147483648,
      decodeFQN = sampleDecodeFQN,
      getZonefileHash = (\<lambda>z. take 20 (rev (Buffer_from z))),
      bufferCVFromString = (\<lambda>s. BufferCV (Buffer_from s)),
      sha256 = (\<lambda>b. take 32 (rev b)),
      ripemd160 = (\<lambda>b. take 20 b),
      cvToString = sampleCvToString,
      getCVTypeString = (\<lambda>v. ''(type)''),
      makeUnsignedContractCall = Inr,
      callReadOnlyFunction = (\<lambda>q. Inr (ResponseOkCV (UIntCV 640000))),
      randomAddress = ''ST2CY5V39NHDPWSXMW9QDT3HC3GD6Q6XX4CFRK9AG''\<rparr>"

definition failingImports :: "UnsignedContractCallOptions Imports" where
  "failingImports = sampleImports\<lparr>callReadOnlyFunction := (\<lambda>q. Inr (ResponseErrorCV (IntCV 1001)))\<rparr>"

definition mainnet :: StacksNetwork where
  "mainnet = \<lparr>chainId = 1\<rparr>"

definition testnet :: StacksNetwork where
  "testnet = \<lparr>chainId = 2147483648\<rparr>"

definition otherNetwork :: StacksNetwork where
  "otherNetwork = \<lparr>chainId = 5\<rparr>"

section \<open>The session data stores\<close>

text \<open>
  The class \<open>InstanceDataStore\<close> and its abstract base \<open>SessionDataStore\<close> (the source file
  that starts with the imports of \<open>SessionData\<close> and \<open>SessionOptions\<close>).

  The class \<open>SessionData\<close> of \<open>./sessionData\<close> is not among the sources. It is a type
  parameter \<open>'sd\<close>, its options are a type parameter \<open>'o\<close>, and what the stores use of it is
  taken as parameters: the constructor \<open>new SessionData(options)\<close>, the empty options object
  \<open>{}\<close>, and the field \<open>userData.identityAddress\<close> of a session (absent when there is no
  user data).
\<close>

record ('o, 'sd) SessionDataClass =
  newSessionData :: "'o \<Rightarrow> 'sd"
  emptyOptions :: 'o
  identityAddress :: "'sd \<Rightarrow> string option"

record SessionIdentityChangeEvent =
  newIdentity :: "string option"
  oldIdentity :: "string option"

datatype NoSessionDataError = NoSessionDataError string

text \<open>
  An identity change callback is code of the caller. It is a function from the event it is
  called on to what the call does: \<open>None\<close> when it returns, \<open>Some x\<close> when it throws the
  exception \<open>x\<close>. The stores call it with no \<open>try\<close> around the call, so its exception leaves
  the store method that made the call.
\<close>

type_synonym 'ex SessionIdentityChangeCallback = "SessionIdentityChangeEvent \<Rightarrow> 'ex option"

text \<open>
  The state of an \<open>InstanceDataStore\<close>: its field \<open>sessionData\<close> and the two protected
  fields of the base class. The events on which the callback has been called are recorded,
  in order, in \<open>notified\<close>.
\<close>

record ('sd, 'ex) InstanceDataStore =
  sessionData :: "'sd option"
  identityChangeCallback :: "'ex SessionIdentityChangeCallback option"
  lastUpdatedIdentity :: "string option"
  notified :: "SessionIdentityChangeEvent list"

definition hasIdentityChangeCallback :: "('sd, 'ex) InstanceDataStore \<Rightarrow> bool" where
  "hasIdentityChangeCallback this = (identityChangeCallback this \<noteq> None)"

text \<open>
  The identity of a session, as both the constructor and \<open>setSessionData\<close> compute it:
  \<open>session.userData.identityAddress\<close> when the session, its user data and the address are
  truthy, and undefined otherwise.
\<close>

definition currentIdentityOf :: "('o, 'sd) SessionDataClass \<Rightarrow> 'sd \<Rightarrow> string option" where
  "currentIdentityOf cls session =
     (if truthy (identityAddress cls session) then identityAddress cls session else None)"

definition getSessionData :: "('sd, 'ex) InstanceDataStore \<Rightarrow> NoSessionDataError + 'sd" where
  "getSessionData this =
     (case sessionData this of
        None \<Rightarrow> Inl (NoSessionDataError ''No session data was found.'')
      | Some session \<Rightarrow> Inr session)"

text \<open>
  A method that changes the store returns the exception that left it or its return value,
  and the store as the method left it. \<open>setSessionData\<close> assigns \<open>this.sessionData\<close> first; when
  the callback throws, \<open>lastUpdatedIdentity\<close> is not assigned and \<open>true\<close> is not returned.
\<close>

definition setSessionData ::
  "('o, 'sd) SessionDataClass \<Rightarrow> 'sd \<Rightarrow> ('sd, 'ex) InstanceDataStore
     \<Rightarrow> ('ex + bool) \<times> ('sd, 'ex) InstanceDataStore"
where
  "setSessionData cls session this =
     (let this1 = this\<lparr>sessionData := Some session\<rparr>;
          currentIdentity = currentIdentityOf cls session
      in case identityChangeCallback this1 of
           Some callback \<Rightarrow>
             if lastUpdatedIdentity this1 \<noteq> currentIdentity
             then
               let event = \<lparr>newIdentity = currentIdentity, oldIdentity = lastUpdatedIdentity this1\<rparr>;
                   this2 = this1\<lparr>notified := notified this1 @ [event]\<rparr>
               in case callback event of
                    Some x \<Rightarrow> (Inl x, this2)
                  | None \<Rightarrow> (Inr True, this2\<lparr>lastUpdatedIdentity := currentIdentity\<rparr>)
             else (Inr True, this1\<lparr>lastUpdatedIdentity := currentIdentity\<rparr>)
         | None \<Rightarrow> (Inr True, this1\<lparr>lastUpdatedIdentity := currentIdentity\<rparr>))"

definition deleteSessionData ::
  "('o, 'sd) SessionDataClass \<Rightarrow> ('sd, 'ex) InstanceDataStore
     \<Rightarrow> ('ex + bool) \<times> ('sd, 'ex) InstanceDataStore"
where
  "deleteSessionData cls this =
     (case setSessionData cls (newSessionData cls (emptyOptions cls)) this of
        (Inl x, this1) \<Rightarrow> (Inl x, this1)
      | (Inr r, this1) \<Rightarrow> (Inr True, this1))"

definition setSessionIdentityChangeCallback ::
  "'ex SessionIdentityChangeCallback option \<Rightarrow> ('sd, 'ex) InstanceDataStore
     \<Rightarrow> ('sd, 'ex) InstanceDataStore"
where
  "setSessionIdentityChangeCallback callback this = this\<lparr>identityChangeCallback := callback\<rparr>"

text \<open>
  The constructor of the base class, on a fresh object whose fields are all undefined: with
  session options it stores a new session made from them. An exception of \<open>setSessionData\<close>
  would leave the constructor.
\<close>

definition SessionDataStore_constructor ::
  "('o, 'sd) SessionDataClass \<Rightarrow> 'o option \<Rightarrow> 'ex + ('sd, 'ex) InstanceDataStore"
where
  "SessionDataStore_constructor cls sessionOptions =
     (let this = \<lparr>sessionData = None, identityChangeCallback = None,
                  lastUpdatedIdentity = None, notified = []\<rparr>
      in case sessionOptions of
           Some opts \<Rightarrow>
             (case setSessionData cls (newSessionData cls opts) this of
                (Inl x, this1) \<Rightarrow> Inl x
              | (Inr r, this1) \<Rightarrow> Inr this1)
         | None \<Rightarrow> Inr this)"

text \<open>
  The constructor of \<open>InstanceDataStore\<close>. The field declaration \<open>sessionData?: SessionData\<close>
  has no initializer and leaves what the base constructor stored in place.
\<close>

definition InstanceDataStore_constructor ::
  "('o, 'sd) SessionDataClass \<Rightarrow> 'o option \<Rightarrow> 'ex + ('sd, 'ex) InstanceDataStore"
where
  "InstanceDataStore_constructor cls sessionOptions =
     andThen (SessionDataStore_constructor cls sessionOptions) (\<lambda>this.
     andThen
       (case sessionData this of
          None \<Rightarrow>
            (case setSessionData cls (newSessionData cls (emptyOptions cls)) this of
               (Inl x, this1) \<Rightarrow> Inl x
             | (Inr r, this1) \<Rightarrow> Inr (newSessionData cls (emptyOptions cls), this1))
        | Some s \<Rightarrow> Inr (s, this))
       (\<lambda>(session, this1).
          if truthy (identityAddress cls session)
          then Inr (this1\<lparr>lastUpdatedIdentity := identityAddress cls session\<rparr>)
          else Inr this1))"

text \<open>
  The calls that a holder of a store can make on it, and the store after a sequence of
  them; a call that throws leaves the store as the method left it, and the holder goes on.
\<close>

datatype ('sd, 'ex) StoreCall =
    GetSessionData
  | SetSessionData 'sd
  | DeleteSessionData
  | SetSessionIdentityChangeCallback "'ex SessionIdentityChangeCallback option"

fun call :: "('o, 'sd) SessionDataClass \<Rightarrow> ('sd, 'ex) StoreCall \<Rightarrow> ('sd, 'ex) InstanceDataStore
               \<Rightarrow> ('sd, 'ex) InstanceDataStore" where
  "call cls GetSessionData this = this"
| "call cls (SetSessionData session) this = snd (setSessionData cls session this)"
| "call cls DeleteSessionData this = snd (deleteSessionData cls this)"
| "call cls (SetSessionIdentityChangeCallback callback) this =
     setSessionIdentityChangeCallback callback this"

definition afterCalls ::
  "('o, 'sd) SessionDataClass \<Rightarrow> ('sd, 'ex) StoreCall list \<Rightarrow> ('sd, 'ex) InstanceDataStore
     \<Rightarrow> ('sd, 'ex) InstanceDataStore"
where
  "afterCalls cls calls this = fold (call cls) calls this"

text \<open>
  What the identity change callback of a store does when \<open>setSessionData\<close> is called with a
  session: \<open>Some x\<close> when the callback is installed, the identity changes and the callback
  throws \<open>x\<close> on the event; \<open>None\<close> when no callback is installed, or the identity does not
  change, or the callback returns.
\<close>

definition thrownByCallback ::
  "('o, 'sd) SessionDataClass \<Rightarrow> 'sd \<Rightarrow> ('sd, 'ex) InstanceDataStore \<Rightarrow> 'ex option"
where
  "thrownByCallback cls session this =
     (case identityChangeCallback this of
        None \<Rightarrow> None
      | Some callback \<Rightarrow>
          if lastUpdatedIdentity this \<noteq> currentIdentityOf cls session
          then callback \<lparr>newIdentity = currentIdentityOf cls session,
                         oldIdentity = lastUpdatedIdentity this\<rparr>
          else None)"

text \<open>
  A session class for concrete stores: a session is its identity address, if it has one,
  and the options of a new session are that address. A callback that always throws, and the
  store that the constructor builds without options.
\<close>

definition sampleSessionClass :: "(string option, string option) SessionDataClass" where
  "sampleSessionClass =
     \<lparr>newSessionData = (\<lambda>opts. opts), emptyOptions = None, identityAddress = (\<lambda>session. session)\<rparr>"

definition throwingCallback :: "string SessionIdentityChangeCallback" where
  "throwingCallback = (\<lambda>event. Some ''callback failed'')"

definition emptyStore :: "(string option, string) InstanceDataStore" where
  "emptyStore =
     \<lparr>sessionData = Some None, identityChangeCallback = None,
      lastUpdatedIdentity = None, notified = []\<rparr>"

section \<open>The token file URL of a zone file\<close>

text \<open>
  The function \<open>getTokenFileUrl\<close> (the source file that starts with the import of
  \<open>makeZoneFile\<close> and \<open>parseZoneFile\<close>). Its argument has the type \<open>any\<close>: a JSON value.
\<close>

datatype json =
    JNull
  | JBool bool
  | JNumber int
  | JString string
  | JArray "json list"
  | JObject "(string \<times> json) list"

text \<open>
  \<open>x.hasOwnProperty(key)\<close> for a key that is neither an index nor \<open>length\<close>: only an object
  has such own properties, and on \<open>null\<close> the call throws. \<open>x[key]\<close> reads the property.
\<close>

fun hasOwnProperty :: "json \<Rightarrow> string \<Rightarrow> js_error + bool" where
  "hasOwnProperty JNull key = Inl TypeError"
| "hasOwnProperty (JObject members) key = Inr (map_of members key \<noteq> None)"
| "hasOwnProperty _ key = Inr False"

fun property :: "json \<Rightarrow> string \<Rightarrow> json option" where
  "property (JObject members) key = map_of members key"
| "property _ key = None"

text \<open>
  The function returns \<open>null\<close> (here \<open>None\<close>) or the URL. Calling \<open>startsWith\<close> on a target
  that is not a string throws.
\<close>

definition getTokenFileUrl :: "json \<Rightarrow> js_error + string option" where
  "getTokenFileUrl zoneFileJson =
     andThen (hasOwnProperty zoneFileJson ''uri'') (\<lambda>hasUri.
       if \<not> hasUri then Inr None
       else
         case property zoneFileJson ''uri'' of
           Some (JArray uri) \<Rightarrow>
             if length uri < 1 then Inr None
             else
               let firstUriRecord = uri ! 0 in
               andThen (hasOwnProperty firstUriRecord ''target'') (\<lambda>hasTarget.
                 if \<not> hasTarget then Inr None
                 else
                   case property firstUriRecord ''target'' of
                     Some (JString tokenFileUrl) \<Rightarrow>
                       if prefix ''https'' tokenFileUrl then Inr (Some tokenFileUrl)
                       else if prefix ''http'' tokenFileUrl then Inr (Some tokenFileUrl)
                       else Inr (Some (''https://'' @ tokenFileUrl))
                   | _ \<Rightarrow> Inl TypeError)
         | _ \<Rightarrow> Inr None)"

text \<open>
  The shape of a parsed zone file: an object whose \<open>uri\<close> records, when it has an array of
  them, are objects with a string for a target.
\<close>

fun uriRecord :: "json \<Rightarrow> bool" where
  "uriRecord (JObject members) =
     (case map_of members ''target'' of
        None \<Rightarrow> True
      | Some (JString t) \<Rightarrow> True
      | Some _ \<Rightarrow> False)"
| "uriRecord _ = False"

fun parsedZoneFile :: "json \<Rightarrow> bool" where
  "parsedZoneFile (JObject members) =
     (case map_of members ''uri'' of
        Some (JArray uri) \<Rightarrow> list_all uriRecord uri
      | _ \<Rightarrow> True)"
| "parsedZoneFile _ = False"

text \<open>The zone file that \<open>makeProfileZoneFile\<close> writes for a token file URL, parsed.\<close>

definition sampleZoneFile :: "string \<Rightarrow> json" where
  "sampleZoneFile target =
     JObject
       [(''$origin'', JString ''bob.id''),
        (''$ttl'', JNumber 3600),
        (''uri'', JArray
           [JObject [(''name'', JString ''_http._tcp''), (''target'', JString target),
                     (''priority'', JNumber 10), (''weight'', JNumber 1)]])]"

section \<open>Properties of the reader and of the codec\<close>

lemma pending_advance: "pending (advance n r) = drop n (pending r)"
  by (simp add: pending_def advance_def add.commute)

lemma advance_advance: "advance m (advance n r) = advance (n + m) r"
  by (simp add: advance_def add.assoc)

lemma readByte_pending:
  "pending r \<noteq> [] \<Longrightarrow> readByte r = Inr (hd (pending r), advance 1 r)"
  by (auto simp: readByte_def pending_def advance_def hd_drop_conv_nth)

lemma readBuffer_pending:
  "n \<le> length (pending r) \<Longrightarrow> readBuffer n r = Inr (take n (pending r), advance n r)"
  by (auto simp: readBuffer_def pending_def advance_def)

lemma length_be_bytes: "length (be_bytes k n) = k"
  by (induction k arbitrary: n) auto

lemma be_value_snoc: "be_value (bs @ [b]) = be_value bs * 256 + uint b"
  by (simp add: be_value_def)

lemma be_value_be_bytes: "be_value (be_bytes k n) = n mod 256 ^ k"
proof (induction k arbitrary: n)
  case 0
  show ?case by (simp add: be_value_def)
next
  case (Suc k)
  have "uint (word_of_int (n mod 256) :: byte) = n mod 256"
    by (simp add: uint_word_of_int)
  then show ?case
    using Suc[of "n div 256"] zmod_zmult2_eq[of "256 ^ k" n 256]
    by (simp add: be_value_snoc mult.commute)
qed

lemma unat_of_char: "unat (of_char c :: byte) = of_char c"
proof -
  have "unat (of_nat (of_char c) :: byte) = of_char c"
    by (simp add: unat_of_nat)
  then show ?thesis by (simp add: of_nat_of_char)
qed

lemma Buffer_toString_from: "Buffer_toString (Buffer_from s) = s"
  by (simp add: Buffer_toString_def Buffer_from_def unat_of_char comp_def)

lemma length_Buffer_from: "length (Buffer_from s) = length s"
  by (simp add: Buffer_from_def)

lemma inj_Buffer_from: "inj Buffer_from"
  by (metis Buffer_toString_from injI)

lemma unat_length_byte: "n < 256 \<Longrightarrow> unat (word_of_int (int n mod 256) :: byte) = n"
proof -
  assume "n < 256"
  then have "unat (of_nat n :: byte) = n"
    by (simp add: unat_of_nat)
  moreover have "int n mod 256 = int n"
    using \<open>n < 256\<close> by simp
  ultimately show ?thesis by simp
qed

lemma unat_length_byte': "n < 256 \<Longrightarrow> unat (word_of_nat n :: byte) = n"
  by (simp add: unat_of_nat)

lemma byte_of_length: "n < 256 \<Longrightarrow> word_of_int (int n mod 256) = (word_of_nat n :: byte)"
  by simp

lemma update_fresh: "k \<notin> fst ` set al \<Longrightarrow> AList.update k v al = al @ [(k, v)]"
  by (induction al) auto


lemma readUInt32_pending:
  "4 \<le> length (pending r) \<Longrightarrow>
   readUInt32 r = Inr (nat (be_value (take 4 (pending r))), advance 4 r)"
  by (simp add: readUInt32_def readBuffer_pending)

lemma uint32_roundtrip: "n < 2 ^ 32 \<Longrightarrow> nat (be_value (be_bytes 4 (int n))) = n"
  by (simp add: be_value_be_bytes)

lemma length_int128_bytes: "length (int128_bytes i) = 16"
  by (simp add: int128_bytes_def length_be_bytes)

lemma int128_unsigned: "isUInt128 i \<Longrightarrow> be_value (int128_bytes i) = i"
  by (simp add: be_value_be_bytes int128_bytes_def isUInt128_def)

lemma int128_signed:
  assumes "isInt128 i"
  shows "signed128 (int128_bytes i) = i"
proof (cases "0 \<le> i")
  case True
  with assms have "i mod 2 ^ 128 = i" by (simp add: isInt128_def)
  with assms True show ?thesis
    by (simp add: be_value_be_bytes signed128_def int128_bytes_def isInt128_def)
next
  case False
  have "(i + 2 ^ 128) mod 2 ^ 128 = i + 2 ^ 128"
    using assms False by (intro mod_pos_pos_trivial) (auto simp: isInt128_def)
  then have "i mod 2 ^ 128 = i + 2 ^ 128" by simp
  with assms False show ?thesis
    by (simp add: be_value_be_bytes signed128_def int128_bytes_def isInt128_def)
qed

lemma be_bytes_1: "be_bytes (Suc 0) n = [word_of_int (n mod 256)]"
  by simp

lemmas reader_simps = be_bytes_1 length_int128_bytes int128_signed int128_unsigned
  readByte_pending readBuffer_pending readUInt32_pending pending_advance advance_advance
  length_be_bytes length_Buffer_from Buffer_toString_from

lemma advance_0: "advance 0 r = r"
  by (simp add: advance_def)

lemma deserializeList_roundtrip:
  assumes "\<And>x r rest. x \<in> set xs \<Longrightarrow> pending r = serializeCV x @ rest \<Longrightarrow>
             deserializeCV_at d r = Inr (canonical x, advance (length (serializeCV x)) r)"
    and "pending r = concat (map serializeCV xs) @ rest"
  shows "deserializeList d (length xs) r =
           Inr (map canonical xs, advance (length (concat (map serializeCV xs))) r)"
  using assms
proof (induction xs arbitrary: r)
  case Nil
  show ?case by (simp add: advance_0)
next
  case (Cons x xs)
  have 1: "deserializeCV_at d r = Inr (canonical x, advance (length (serializeCV x)) r)"
    using Cons.prems(1)[of x r "concat (map serializeCV xs) @ rest"] Cons.prems(2) by simp
  have 2: "pending (advance (length (serializeCV x)) r) = concat (map serializeCV xs) @ rest"
    by (simp add: pending_advance Cons.prems(2))
  have 3: "deserializeList d (length xs) (advance (length (serializeCV x)) r) =
             Inr (map canonical xs,
               advance (length (concat (map serializeCV xs))) (advance (length (serializeCV x)) r))"
  proof (rule Cons.IH[OF _ 2])
    fix x' r' rest'
    assume "x' \<in> set xs" and "pending r' = serializeCV x' @ rest'"
    then show "deserializeCV_at d r' = Inr (canonical x', advance (length (serializeCV x')) r')"
      by (intro Cons.prems(1)[of x' r' rest']) auto
  qed
  show ?case by (simp add: 1 3 advance_advance)
qed

lemma deserializeTuple_roundtrip:
  assumes "\<And>k v r rest. (k, v) \<in> set es \<Longrightarrow> pending r = serializeCV v @ rest \<Longrightarrow>
             deserializeCV_at d r = Inr (canonical v, advance (length (serializeCV v)) r)"
    and "\<And>k v. (k, v) \<in> set es \<Longrightarrow> length k < 256"
    and "distinct (map fst acc @ map fst es)"
    and "pending r = concat (map entryBytes es) @ rest"
  shows "deserializeTuple d (length es) acc r =
           Inr (acc @ map (\<lambda>(k, v). (k, canonical v)) es,
                advance (length (concat (map entryBytes es))) r)"
  using assms
proof (induction es arbitrary: acc r)
  case Nil
  show ?case by (simp add: advance_0)
next
  case (Cons e es)
  obtain k v where e: "e = (k, v)" by (cases e)
  have klen: "length k < 256" using Cons.prems(2)[of k v] e by simp
  let ?r1 = "advance (Suc (length k)) r"
  have p1: "pending ?r1 = serializeCV v @ concat (map entryBytes es) @ rest"
    using Cons.prems(4) by (simp add: e entryBytes_def pending_advance length_Buffer_from)
  have 1: "deserializeCV_at d ?r1 = Inr (canonical v, advance (length (serializeCV v)) ?r1)"
    using Cons.prems(1)[of k v ?r1, OF _ p1] e by simp
  let ?r2 = "advance (length (serializeCV v)) ?r1"
  have p2: "pending ?r2 = concat (map entryBytes es) @ rest"
    unfolding pending_advance[of "length (serializeCV v)" ?r1] p1 by simp
  have fresh: "k \<notin> fst ` set acc"
    using Cons.prems(3) e by auto
  have d2: "distinct (map fst (acc @ [(k, canonical v)]) @ map fst es)"
    using Cons.prems(3) e by auto
  have 2: "deserializeTuple d (length es) (acc @ [(k, canonical v)]) ?r2 =
             Inr ((acc @ [(k, canonical v)]) @ map (\<lambda>(k, v). (k, canonical v)) es,
                  advance (length (concat (map entryBytes es))) ?r2)"
  proof (rule Cons.IH[OF _ _ d2 p2])
    fix k' v' r' rest'
    assume "(k', v') \<in> set es" and "pending r' = serializeCV v' @ rest'"
    then show "deserializeCV_at d r' = Inr (canonical v', advance (length (serializeCV v')) r')"
      by (intro Cons.prems(1)[of k' v' r' rest']) auto
  next
    fix k' v'
    assume "(k', v') \<in> set es"
    then show "length k' < 256"
      by (intro Cons.prems(2)[of k' v']) auto
  qed
  have hd: "readByte r = Inr (word_of_nat (length k), advance (Suc 0) r)"
    using Cons.prems(4) klen
    by (simp add: e entryBytes_def readByte_pending length_Buffer_from byte_of_length)
  have key: "readBuffer (length k) (advance (Suc 0) r) = Inr (Buffer_from k, ?r1)"
    using Cons.prems(4)
    by (simp add: e entryBytes_def readBuffer_pending pending_advance length_Buffer_from advance_advance)
  have "deserializeTuple d (length (e # es)) acc r =
          Inr (acc @ map (\<lambda>(k, v). (k, canonical v)) (e # es),
               advance (length (concat (map entryBytes es))) ?r2)"
    by (simp add: hd key 1 2 klen unat_length_byte' Buffer_toString_from update_fresh[OF fresh] e)
  moreover have "advance (length (concat (map entryBytes es))) ?r2 =
          advance (length (concat (map entryBytes (e # es)))) r"
    by (simp add: advance_advance e entryBytes_def length_Buffer_from add.assoc)
  ultimately show ?case by simp
qed


lemma serializeCV_Tuple:
  "serializeCV (TupleCV kvs) =
     12 # be_bytes 4 (int (length kvs)) @ concat (map entryBytes (sortedEntries kvs))"
  by (simp add: entryBytes_def)

lemma set_sortedEntries: "set (sortedEntries kvs) = set kvs"
  by (simp add: sortedEntries_def)

lemma length_sortedEntries: "length (sortedEntries kvs) = length kvs"
  by (simp add: sortedEntries_def)

lemma distinct_keys_sortedEntries:
  "distinct (map fst (sortedEntries kvs)) = distinct (map fst kvs)"
proof -
  have "mset (map fst (sortedEntries kvs)) = mset (map fst kvs)"
    by (simp add: sortedEntries_def)
  then show ?thesis
    by (rule mset_eq_imp_distinct_iff)
qed

lemma length_item_le:
  "x \<in> set xs \<Longrightarrow> length (f x) \<le> length (concat (map f xs))"
  by (induction xs) auto

lemma length_entry_le:
  "(k, v) \<in> set es \<Longrightarrow> length (serializeCV v) \<le> length (concat (map entryBytes es))"
  by (induction es) (auto simp: entryBytes_def)

lemma serializeCV_nonempty: "serializeCV v \<noteq> []"
  by (cases v) simp_all

lemma deserializeCV_at_roundtrip:
  "constructible v \<Longrightarrow> length (serializeCV v) \<le> depth \<Longrightarrow> pending r = serializeCV v @ rest \<Longrightarrow>
   deserializeCV_at depth r = Inr (canonical v, advance (length (serializeCV v)) r)"
proof (induction v arbitrary: depth r rest)
  case (ListCV xs)
  from ListCV.prems(2) obtain d where d: "depth = Suc d"
    by (cases depth) auto
  have len: "length xs < 2 ^ 32" and all: "list_all constructible xs"
    using ListCV.prems(1) by auto
  let ?body = "concat (map serializeCV xs)"
  let ?r1 = "advance 5 r"
  have p: "pending r = 11 # be_bytes 4 (int (length xs)) @ ?body @ rest"
    using ListCV.prems(3) by simp
  have p1: "pending ?r1 = ?body @ rest"
    using p by (simp add: pending_advance length_be_bytes)
  have items: "deserializeList d (length xs) ?r1 =
                 Inr (map canonical xs, advance (length ?body) ?r1)"
  proof (rule deserializeList_roundtrip[OF _ p1])
    fix x r' rest'
    assume x: "x \<in> set xs" and p': "pending r' = serializeCV x @ rest'"
    have c: "constructible x"
      using all x by (simp add: list_all_iff)
    have l: "length (serializeCV x) \<le> d"
      using length_item_le[OF x, of serializeCV] ListCV.prems(2) d by simp
    show "deserializeCV_at d r' = Inr (canonical x, advance (length (serializeCV x)) r')"
      by (rule ListCV.IH[OF x c l p'])
  qed
  show ?case
    using p len
    by (simp add: d reader_simps uint32_roundtrip items del: be_bytes.simps)
next
  case (TupleCV kvs)
  from TupleCV.prems(2) obtain d where d: "depth = Suc d"
    by (cases depth) auto
  have len: "length kvs < 2 ^ 32" and dist: "distinct (map fst kvs)"
    and all: "list_all (\<lambda>(k, v). length k < 256 \<and> constructible v) kvs"
    using TupleCV.prems(1) by auto
  let ?es = "sortedEntries kvs"
  let ?body = "concat (map entryBytes ?es)"
  let ?r1 = "advance 5 r"
  have p: "pending r = 12 # be_bytes 4 (int (length kvs)) @ ?body @ rest"
    using TupleCV.prems(3) by (simp add: serializeCV_Tuple del: serializeCV.simps)
  have p1: "pending ?r1 = ?body @ rest"
    using p by (simp add: pending_advance length_be_bytes)
  have entries: "deserializeTuple d (length ?es) [] ?r1 =
                 Inr ([] @ map (\<lambda>(k, v). (k, canonical v)) ?es, advance (length ?body) ?r1)"
  proof (rule deserializeTuple_roundtrip[OF _ _ _ p1])
    fix k v r' rest'
    assume "(k, v) \<in> set ?es" and p': "pending r' = serializeCV v @ rest'"
    then have kv: "(k, v) \<in> set kvs"
      by (simp add: set_sortedEntries)
    have c: "constructible v"
      using all kv by (auto simp: list_all_iff)
    have "length (serializeCV v) \<le> length ?body"
      using length_entry_le[of k v ?es] kv by (simp add: set_sortedEntries)
    then have l: "length (serializeCV v) \<le> d"
      using TupleCV.prems(2) d by (simp add: serializeCV_Tuple del: serializeCV.simps)
    have snd: "v \<in> Basic_BNFs.snds (k, v)"
      by simp
    show "deserializeCV_at d r' = Inr (canonical v, advance (length (serializeCV v)) r')"
      by (rule TupleCV.IH[OF kv snd c l p'])
  next
    fix k v
    assume "(k, v) \<in> set ?es"
    then show "length k < 256"
      using all by (auto simp: list_all_iff set_sortedEntries)
  next
    show "distinct (map fst [] @ map fst ?es)"
      using dist by (simp add: distinct_keys_sortedEntries)
  qed
  show ?case
    using p len
    by (simp add: d reader_simps uint32_roundtrip entries[unfolded length_sortedEntries append_Nil]
          serializeCV_Tuple del: be_bytes.simps serializeCV.simps)
next
  case (ResponseOkCV x)
  from ResponseOkCV.prems(2) obtain d where d: "depth = Suc d"
    by (cases depth) auto
  have p1: "pending (advance 1 r) = serializeCV x @ rest"
    using ResponseOkCV.prems(3) by (simp add: pending_advance)
  have "deserializeCV_at d (advance 1 r) =
          Inr (canonical x, advance (length (serializeCV x)) (advance 1 r))"
    using ResponseOkCV.prems(1,2) d by (intro ResponseOkCV.IH[OF _ _ p1]) auto
  then show ?case
    using ResponseOkCV.prems(3) by (simp add: d readByte_pending advance_advance)
next
  case (ResponseErrorCV x)
  from ResponseErrorCV.prems(2) obtain d where d: "depth = Suc d"
    by (cases depth) auto
  have p1: "pending (advance 1 r) = serializeCV x @ rest"
    using ResponseErrorCV.prems(3) by (simp add: pending_advance)
  have "deserializeCV_at d (advance 1 r) =
          Inr (canonical x, advance (length (serializeCV x)) (advance 1 r))"
    using ResponseErrorCV.prems(1,2) d by (intro ResponseErrorCV.IH[OF _ _ p1]) auto
  then show ?case
    using ResponseErrorCV.prems(3) by (simp add: d readByte_pending advance_advance)
next
  case (SomeCV x)
  from SomeCV.prems(2) obtain d where d: "depth = Suc d"
    by (cases depth) auto
  have p1: "pending (advance 1 r) = serializeCV x @ rest"
    using SomeCV.prems(3) by (simp add: pending_advance)
  have "deserializeCV_at d (advance 1 r) =
          Inr (canonical x, advance (length (serializeCV x)) (advance 1 r))"
    using SomeCV.prems(1,2) d by (intro SomeCV.IH[OF _ _ p1]) auto
  then show ?case
    using SomeCV.prems(3) by (simp add: d readByte_pending advance_advance)
next
  case (IntCV i)
  then show ?case
    by (cases depth)
      (simp_all add: reader_simps uint32_roundtrip unat_length_byte unat_length_byte'
        del: be_bytes.simps)
next
  case (UIntCV i)
  then show ?case
    by (cases depth)
      (simp_all add: reader_simps uint32_roundtrip unat_length_byte unat_length_byte'
        del: be_bytes.simps)
next
  case (BufferCV b)
  then show ?case
    by (cases depth)
      (simp_all add: reader_simps uint32_roundtrip unat_length_byte unat_length_byte'
        del: be_bytes.simps)
next
  case (TrueCV)
  then show ?case
    by (cases depth)
      (simp_all add: reader_simps uint32_roundtrip unat_length_byte unat_length_byte'
        del: be_bytes.simps)
next
  case (FalseCV)
  then show ?case
    by (cases depth)
      (simp_all add: reader_simps uint32_roundtrip unat_length_byte unat_length_byte'
        del: be_bytes.simps)
next
  case (StandardPrincipalCV v h)
  then show ?case
    by (cases depth)
      (simp_all add: reader_simps uint32_roundtrip unat_length_byte unat_length_byte'
        del: be_bytes.simps)
next
  case (ContractPrincipalCV v h n)
  then show ?case
    by (cases depth)
      (simp_all add: reader_simps uint32_roundtrip unat_length_byte unat_length_byte'
        del: be_bytes.simps)
next
  case (NoneCV)
  then show ?case
    by (cases depth)
      (simp_all add: reader_simps uint32_roundtrip unat_length_byte unat_length_byte'
        del: be_bytes.simps)
next
  case (StringAsciiCV s)
  then show ?case
    by (cases depth)
      (simp_all add: reader_simps uint32_roundtrip unat_length_byte unat_length_byte'
        del: be_bytes.simps)
next
  case (StringUtf8CV s)
  then show ?case
    by (cases depth)
      (simp_all add: reader_simps uint32_roundtrip unat_length_byte unat_length_byte'
        del: be_bytes.simps)
qed

lemma canonical_idem: "canonical (canonical v) = canonical v"
proof (induction v)
  case (TupleCV kvs)
  let ?g = "\<lambda>(k, v). (k, canonical v)"
  let ?f = "\<lambda>(k, v :: ClarityValue). Buffer_from k"
  have keys: "map ?f (map ?g (sortedEntries kvs)) = map ?f (sortedEntries kvs)"
    by (simp add: case_prod_unfold comp_def)
  have s: "sorted (map ?f (map ?g (sortedEntries kvs)))"
    unfolding keys by (simp add: sortedEntries_def)
  have "sortedEntries (map ?g (sortedEntries kvs)) = map ?g (sortedEntries kvs)"
    unfolding sortedEntries_def[of "map ?g (sortedEntries kvs)"]
    by (rule sort_key_id_if_sorted[OF s])
  moreover have "map ?g (map ?g (sortedEntries kvs)) = map ?g (sortedEntries kvs)"
    using TupleCV.IH by (auto simp: set_sortedEntries)
  ultimately show ?case by simp
qed (simp_all add: map_idI)

lemma filter_key_single:
  "distinct (map f xs) \<Longrightarrow> k \<in> set xs \<Longrightarrow> filter (\<lambda>x. f k = f x) xs = [k]"
proof (induction xs)
  case Nil
  then show ?case by simp
next
  case (Cons x xs)
  show ?case
  proof (cases "k = x")
    case True
    have "filter (\<lambda>y. f x = f y) xs = []"
      using Cons.prems(1) by (auto simp: filter_empty_conv)
    with True show ?thesis by simp
  next
    case False
    with Cons.prems have kin: "k \<in> set xs"
      by simp
    from Cons.prems(1) have "f x \<notin> f ` set xs"
      by simp
    with kin have "f k \<noteq> f x"
      by (metis imageI)
    with Cons kin show ?thesis by simp
  qed
qed

lemma sortedEntries_permutation:
  assumes "distinct (map fst kvs)" "distinct (map fst kvs')" "set kvs = set kvs'"
  shows "sortedEntries kvs = sortedEntries kvs'"
proof -
  let ?f = "\<lambda>(k, v :: 'a). Buffer_from k"
  have inj: "\<And>xs :: (string \<times> 'a) list. distinct (map fst xs) \<Longrightarrow> distinct (map ?f xs)"
  proof -
    fix xs :: "(string \<times> 'a) list"
    assume "distinct (map fst xs)"
    moreover have "inj_on Buffer_from (set (map fst xs))"
      by (rule inj_on_subset[OF inj_Buffer_from]) simp
    ultimately have "distinct (map Buffer_from (map fst xs))"
      by (subst distinct_map) blast
    then show "distinct (map ?f xs)" by (simp add: case_prod_unfold comp_def)
  qed
  have d: "distinct kvs" "distinct kvs'"
    using assms(1,2) by (auto simp: distinct_map)
  then have m: "mset kvs = mset kvs'"
    using assms(3) by (simp add: set_eq_iff_mset_eq_distinct)
  have "sort_key ?f kvs = sort_key ?f kvs'"
  proof (rule properties_for_sort_key)
    show "mset (sort_key ?f kvs') = mset kvs" using m by simp
    show "sorted (map ?f (sort_key ?f kvs'))" by simp
    fix k assume "k \<in> set (sort_key ?f kvs')"
    then have k: "k \<in> set kvs'" by simp
    have "distinct (map ?f (sort_key ?f kvs'))"
      using inj[OF assms(2)] by (simp add: distinct_map)
    then have "filter (\<lambda>x. ?f k = ?f x) (sort_key ?f kvs') = [k]"
      using k by (intro filter_key_single) auto
    moreover have "filter (\<lambda>x. ?f k = ?f x) kvs = [k]"
      using k assms(3) inj[OF assms(1)] by (intro filter_key_single) auto
    ultimately show "filter (\<lambda>x. ?f k = ?f x) (sort_key ?f kvs') = filter (\<lambda>x. ?f k = ?f x) kvs"
      by simp
  qed
  then show ?thesis by (simp add: sortedEntries_def)
qed

lemma map_insort_key:
  "map f (insort_key (\<lambda>x. g (f x)) x xs) = insort_key g (f x) (map f xs)"
  by (induction xs) auto

lemma map_sort_key: "map f (sort_key (\<lambda>x. g (f x)) xs) = sort_key g (map f xs)"
  by (induction xs) (auto simp: map_insort_key)

lemma keys_sortedEntries: "map fst (sortedEntries kvs) = sort_key Buffer_from (map fst kvs)"
  using map_sort_key[of fst Buffer_from kvs] by (simp add: sortedEntries_def case_prod_unfold)


text \<open>
  Decoding the serialization of a constructible value, from the start of a buffer that holds
  nothing else, succeeds with the canonical form of the value. The depth bound given by the
  length of the buffer suffices.
\<close>

lemma deserialize_serialize:
  assumes "constructible v"
  shows "deserializeCV (serializeCV v) = Inr (canonical v)"
proof -
  have "pending (newBufferReader (serializeCV v)) = serializeCV v @ []"
    by (simp add: pending_def newBufferReader_def)
  from deserializeCV_at_roundtrip[OF assms order_refl this]
  show ?thesis
    by (simp add: deserializeCV_def)
qed

section \<open>The depth bound of the decoder is immaterial\<close>

text \<open>
  Every successful decoding of a value consumes at least its tag byte. Hence a depth bound
  of at least the number of bytes that remain is never the reason of a failure: all such
  bounds give the same result, and the bound that \<open>deserializeCV\<close> takes from the length of
  the buffer stands for the unbounded recursion of the decoder.
\<close>

lemma readByte_remaining:
  "readByte r = Inr (b, r') \<Longrightarrow> Suc (remaining r') = remaining r"
  by (auto simp: readByte_def remaining_def split: if_splits)

lemma readBuffer_remaining:
  "readBuffer n r = Inr (bs, r') \<Longrightarrow> remaining r' \<le> remaining r"
  by (auto simp: readBuffer_def remaining_def split: if_splits)

lemma readUInt32_remaining:
  "readUInt32 r = Inr (n, r') \<Longrightarrow> remaining r' \<le> remaining r"
  by (cases "readBuffer 4 r") (auto simp: readUInt32_def dest: readBuffer_remaining)

lemma andThenE:
  assumes "andThen m f = Inr y"
  obtains x where "m = Inr x" and "f x = Inr y"
  using assms by (cases m) auto

lemma andThen_cong_result:
  "m = m' \<Longrightarrow> (\<And>x. m' = Inr x \<Longrightarrow> f x = g x) \<Longrightarrow> andThen m f = andThen m' g"
  by (cases m') auto

lemma deserializeList_progress:
  assumes "\<And>r v r'. deserializeCV_at d r = Inr (v, r') \<Longrightarrow> remaining r' < remaining r"
  shows "deserializeList d n r = Inr (xs, r') \<Longrightarrow> remaining r' \<le> remaining r"
proof (induction n arbitrary: r xs r')
  case 0
  then show ?case by simp
next
  case (Suc n)
  from Suc.prems obtain x r1 ys where 1: "deserializeCV_at d r = Inr (x, r1)"
    and 2: "deserializeList d n r1 = Inr (ys, r')"
    by (auto elim!: andThenE)
  from assms[OF 1] Suc.IH[OF 2] show ?case by simp
qed

lemma deserializeTuple_progress:
  assumes "\<And>r v r'. deserializeCV_at d r = Inr (v, r') \<Longrightarrow> remaining r' < remaining r"
  shows "deserializeTuple d n acc r = Inr (kvs, r') \<Longrightarrow> remaining r' \<le> remaining r"
proof (induction n arbitrary: acc r kvs r')
  case 0
  then show ?case by simp
next
  case (Suc n)
  from Suc.prems obtain klen r1 k r2 v r3
    where 1: "readByte r = Inr (klen, r1)"
      and 2: "readBuffer (unat klen) r1 = Inr (k, r2)"
      and 3: "deserializeCV_at d r2 = Inr (v, r3)"
      and 4: "deserializeTuple d n (AList.update (Buffer_toString k) v acc) r3 = Inr (kvs, r')"
    by (auto elim!: andThenE)
  from readByte_remaining[OF 1] readBuffer_remaining[OF 2] assms[OF 3] Suc.IH[OF 4]
  show ?case by simp
qed

lemma deserializeCV_at_progress:
  "deserializeCV_at d r = Inr (v, r') \<Longrightarrow> remaining r' < remaining r"
proof (induction d arbitrary: r v r')
  case 0
  then show ?case by simp
next
  case (Suc d)
  note cv = Suc.IH
  have li: "remaining r' \<le> remaining r" if "deserializeList d n r = Inr (xs, r')" for n r xs r'
    by (rule deserializeList_progress[OF _ that]) (rule Suc.IH)
  have tu: "remaining r' \<le> remaining r" if "deserializeTuple d n acc r = Inr (kvs, r')"
    for n acc r kvs r'
    by (rule deserializeTuple_progress[OF _ that]) (rule Suc.IH)
  from Suc.prems obtain tag r1 where rb: "readByte r = Inr (tag, r1)"
    and body: "(case (tag, r1) of (tag, r) \<Rightarrow> 
       if tag = 0 then
         andThen (readBuffer 16 r) (\<lambda>(bs, r). Inr (IntCV (signed128 bs), r))
       else if tag = 1 then
         andThen (readBuffer 16 r) (\<lambda>(bs, r). Inr (UIntCV (be_value bs), r))
       else if tag = 2 then
         andThen (readUInt32 r) (\<lambda>(n, r).
         andThen (readBuffer n r) (\<lambda>(bs, r). Inr (BufferCV bs, r)))
       else if tag = 3 then Inr (TrueCV, r)
       else if tag = 4 then Inr (FalseCV, r)
       else if tag = 5 then
         andThen (readByte r) (\<lambda>(v, r).
         andThen (readBuffer 20 r) (\<lambda>(h, r). Inr (StandardPrincipalCV v h, r)))
       else if tag = 6 then
         andThen (readByte r) (\<lambda>(v, r).
         andThen (readBuffer 20 r) (\<lambda>(h, r).
         andThen (readByte r) (\<lambda>(n, r).
         andThen (readBuffer (unat n) r) (\<lambda>(name, r).
           Inr (ContractPrincipalCV v h (Buffer_toString name), r)))))
       else if tag = 7 then
         andThen (deserializeCV_at d r) (\<lambda>(x, r). Inr (ResponseOkCV x, r))
       else if tag = 8 then
         andThen (deserializeCV_at d r) (\<lambda>(x, r). Inr (ResponseErrorCV x, r))
       else if tag = 9 then Inr (NoneCV, r)
       else if tag = 10 then
         andThen (deserializeCV_at d r) (\<lambda>(x, r). Inr (SomeCV x, r))
       else if tag = 11 then
         andThen (readUInt32 r) (\<lambda>(n, r).
         andThen (deserializeList d n r) (\<lambda>(xs, r). Inr (ListCV xs, r)))
       else if tag = 12 then
         andThen (readUInt32 r) (\<lambda>(n, r).
         andThen (deserializeTuple d n [] r) (\<lambda>(kvs, r). Inr (TupleCV kvs, r)))
       else if tag = 13 then
         andThen (readUInt32 r) (\<lambda>(n, r).
         andThen (readBuffer n r) (\<lambda>(bs, r).
           if list_all (\<lambda>b. b < 128) bs then Inr (StringAsciiCV (Buffer_toString bs), r)
           else Inl DecodeError))
       else if tag = 14 then
         andThen (readUInt32 r) (\<lambda>(n, r).
         andThen (readBuffer n r) (\<lambda>(bs, r). Inr (StringUtf8CV (Buffer_toString bs), r)))
       else Inl DecodeError) = Inr (v, r')"
    by (auto elim!: andThenE)
  have "remaining r' \<le> remaining r1"
    using body
    apply (auto elim!: andThenE split: if_splits
        dest!: readByte_remaining readBuffer_remaining readUInt32_remaining cv)
     apply (frule li; simp)
    apply (frule tu; simp)
    done
  with readByte_remaining[OF rb] show ?case by simp
qed


lemma deserializeList_depth:
  assumes "\<And>r. remaining r \<le> m \<Longrightarrow> deserializeCV_at d r = deserializeCV_at e r"
  shows "remaining r \<le> m \<Longrightarrow> deserializeList d n r = deserializeList e n r"
proof (induction n arbitrary: r)
  case 0
  show ?case by simp
next
  case (Suc n)
  have "andThen (deserializeCV_at d r)
          (\<lambda>(x, r). andThen (deserializeList d n r) (\<lambda>(xs, r). Inr (x # xs, r))) =
        andThen (deserializeCV_at e r)
          (\<lambda>(x, r). andThen (deserializeList e n r) (\<lambda>(xs, r). Inr (x # xs, r)))"
  proof (rule andThen_cong_result)
    show "deserializeCV_at d r = deserializeCV_at e r"
      by (rule assms[OF Suc.prems])
  next
    fix p
    assume p: "deserializeCV_at e r = Inr p"
    obtain x r1 where [simp]: "p = (x, r1)" by (cases p)
    from deserializeCV_at_progress[of e r x r1] p Suc.prems have "remaining r1 \<le> m"
      by simp
    from Suc.IH[OF this]
    show "(case p of (x, r) \<Rightarrow> andThen (deserializeList d n r) (\<lambda>(xs, r). Inr (x # xs, r))) =
          (case p of (x, r) \<Rightarrow> andThen (deserializeList e n r) (\<lambda>(xs, r). Inr (x # xs, r)))"
      by simp
  qed
  then show ?case by simp
qed

lemma deserializeTuple_depth:
  assumes "\<And>r. remaining r \<le> m \<Longrightarrow> deserializeCV_at d r = deserializeCV_at e r"
  shows "remaining r \<le> m \<Longrightarrow> deserializeTuple d n acc r = deserializeTuple e n acc r"
proof (induction n arbitrary: acc r)
  case 0
  show ?case by simp
next
  case (Suc n)
  have eq: "deserializeTuple d n acc' r3 = deserializeTuple e n acc' r3"
    if "readByte r = Inr (klen, r1)" and "readBuffer (unat klen) r1 = Inr (k, r2)"
      and "deserializeCV_at e r2 = Inr (v, r3)" for klen r1 k r2 v r3 acc'
  proof -
    from readByte_remaining[OF that(1)] readBuffer_remaining[OF that(2)]
      deserializeCV_at_progress[OF that(3)] Suc.prems
    have "remaining r3 \<le> m" by simp
    then show ?thesis by (rule Suc.IH)
  qed
  have cv: "deserializeCV_at d r2 = deserializeCV_at e r2"
    if "readByte r = Inr (klen, r1)" and "readBuffer (unat klen) r1 = Inr (k, r2)"
    for klen r1 k r2
  proof -
    from readByte_remaining[OF that(1)] readBuffer_remaining[OF that(2)] Suc.prems
    have "remaining r2 \<le> m" by simp
    then show ?thesis by (rule assms)
  qed
  show ?case
    unfolding deserializeTuple.simps
    by (auto intro!: andThen_cong_result simp: cv eq)
qed

lemma readByte_exhausted: "remaining r = 0 \<Longrightarrow> readByte r = Inl OutOfBounds"
  by (simp add: readByte_def remaining_def)

lemma deserializeCV_at_exhausted: "remaining r = 0 \<Longrightarrow> deserializeCV_at d r = Inl OutOfBounds"
  by (cases d) (simp_all add: readByte_exhausted)

lemma deserializeCV_at_depth:
  "remaining r \<le> d \<Longrightarrow> remaining r \<le> e \<Longrightarrow> deserializeCV_at d r = deserializeCV_at e r"
proof (induction d arbitrary: e r)
  case 0
  then show ?case by (simp add: deserializeCV_at_exhausted)
next
  case (Suc d)
  show ?case
  proof (cases e)
    case 0
    with Suc.prems show ?thesis
      by (simp add: deserializeCV_at_exhausted del: deserializeCV_at.simps)
  next
    case (Suc e')
    have cv: "deserializeCV_at d r2 = deserializeCV_at e' r2"
      if "readByte r = Inr (tag, r1)" and "remaining r2 \<le> remaining r1" for tag r1 r2
      using readByte_remaining[OF that(1)] that(2) Suc.prems Suc
      by (intro Suc.IH) simp_all
    have li: "deserializeList d n r2 = deserializeList e' n r2"
      if "readByte r = Inr (tag, r1)" and "remaining r2 \<le> remaining r1" for tag r1 r2 n
      by (rule deserializeList_depth[OF _ that(2)]) (rule cv[OF that(1)])
    have tu: "deserializeTuple d n acc r2 = deserializeTuple e' n acc r2"
      if "readByte r = Inr (tag, r1)" and "remaining r2 \<le> remaining r1" for tag r1 r2 n acc
      by (rule deserializeTuple_depth[OF _ that(2)]) (rule cv[OF that(1)])
    show ?thesis
      unfolding Suc deserializeCV_at.simps
      apply (auto intro!: andThen_cong_result simp: cv[OF _ order_refl])
       apply (erule tu, erule readUInt32_remaining)
      apply (erule li, erule readUInt32_remaining)
      done
  qed
qed

lemma deserializeCV_depth:
  "length b \<le> d \<Longrightarrow>
   deserializeCV b = andThen (deserializeCV_at d (newBufferReader b)) (\<lambda>(v, r). Inr v)"
  using deserializeCV_at_depth[of "newBufferReader b" "length b" d]
  by (simp add: deserializeCV_def remaining_def newBufferReader_def)

section \<open>Agreement with the tests of the codec\<close>

text \<open>
  The remaining vectors of \<open>Serialization Test Vectors\<close> in \<open>clarity.test.ts\<close>: the model of
  the serializer produces the bytes that the tests of the repository expect.
\<close>

lemma serializeCV_further_vectors:
  "toHex (serializeCV (UIntCV 1)) = ''0100000000000000000000000000000001''"
  "toHex (serializeCV FalseCV) = ''04''"
  "toHex (serializeCV (StandardPrincipalCV 0
     [0x11, 0xde, 0xad, 0xbe, 0xef, 0x11, 0xab, 0xab, 0xff, 0xff,
      0x11, 0xde, 0xad, 0xbe, 0xef, 0x11, 0xab, 0xab, 0xff, 0xff])) =
     ''050011deadbeef11ababffff11deadbeef11ababffff''"
  "toHex (serializeCV (ContractPrincipalCV 0
     [0x11, 0xde, 0xad, 0xbe, 0xef, 0x11, 0xab, 0xab, 0xff, 0xff,
      0x11, 0xde, 0xad, 0xbe, 0xef, 0x11, 0xab, 0xab, 0xff, 0xff] ''abcd'')) =
     ''060011deadbeef11ababffff11deadbeef11ababffff0461626364''"
  "toHex (serializeCV (ResponseOkCV (IntCV (- 1)))) = ''0700ffffffffffffffffffffffffffffffff''"
  "toHex (serializeCV (ResponseErrorCV (IntCV (- 1)))) = ''0800ffffffffffffffffffffffffffffffff''"
  "toHex (serializeCV NoneCV) = ''09''"
  "toHex (serializeCV (SomeCV (IntCV (- 1)))) = ''0a00ffffffffffffffffffffffffffffffff''"
  "toHex (serializeCV (ListCV [IntCV 1, IntCV 2, IntCV 3, IntCV (- 4)])) =
     ''0b0000000400000000000000000000000000000000010000000000000000000000000000000002000000000000000000000000000000000300fffffffffffffffffffffffffffffffc''"
  "toHex (serializeCV (TupleCV [(''baz'', NoneCV), (''foobar'', TrueCV)])) =
     ''0c000000020362617a0906666f6f62617203''"
  "toHex (serializeCV (StringAsciiCV ''hello world'')) = ''0d0000000b68656c6c6f20776f726c64''"
  "toHex (serializeCV (StringUtf8CV ''hello world'')) = ''0e0000000b68656c6c6f20776f726c64''"
  by code_simp+


text \<open>
  The decoder on small inputs: the tuple vector read back; an ASCII string with the byte
  0x80; a buffer that declares 10 bytes and holds 4; an unknown tag; the empty input.
\<close>

lemma deserializeCV_examples:
  "deserializeCV [0x0c, 0, 0, 0, 2, 3, 0x62, 0x61, 0x7a, 9, 6, 0x66, 0x6f, 0x6f, 0x62, 0x61, 0x72, 3] =
     Inr (TupleCV [(''baz'', NoneCV), (''foobar'', TrueCV)])"
  "deserializeCV [0x0d, 0, 0, 0, 1, 0x80] = Inl DecodeError"
  "deserializeCV [0x02, 0, 0, 0, 10, 1, 2, 3, 4] = Inl OutOfBounds"
  "deserializeCV [0x0f, 0, 0] = Inl DecodeError"
  "deserializeCV [] = Inl OutOfBounds"
  by code_simp+

section \<open>The round trip of the codec\<close>

text \<open>
  Claim C1. For every constructible Clarity value, nested to any depth (so also up to depth
  5), deserializing its serialization succeeds and yields the canonical form of the value:
  the same value with the entries of every tuple in the sorted order of their key bytes.
  The result is therefore structurally equal to the value, when equality on tuples is taken
  over the canonical sorted key order and not over the insertion order.
\<close>

theorem roundtrip:
  "constructible v \<Longrightarrow>
   deserializeCV (serializeCV v) = Inr (canonical v) \<and> structurallyEqual (canonical v) v"
  by (simp add: deserialize_serialize structurallyEqual_def canonical_idem)

theorem roundtrip_witness:
  "constructible nestedExample \<and>
   deserializeCV (serializeCV nestedExample) =
     Inr (ListCV [TupleCV [(''a'', ResponseErrorCV (StringAsciiCV ''no'')),
                           (''ab'', BufferCV [0xde, 0xad]),
                           (''b'', SomeCV (ResponseOkCV (ListCV [IntCV (- 1), UIntCV 7])))],
                  NoneCV]) \<and>
   structurallyEqual (canonical nestedExample) nestedExample"
proof -
  have c: "constructible nestedExample"
    by (simp add: nestedExample_def Buffer_from_def isInt128_def isUInt128_def)
  have n: "canonical nestedExample =
     ListCV [TupleCV [(''a'', ResponseErrorCV (StringAsciiCV ''no'')),
                           (''ab'', BufferCV [0xde, 0xad]),
                           (''b'', SomeCV (ResponseOkCV (ListCV [IntCV (- 1), UIntCV 7])))],
                  NoneCV]"
    by code_simp
  show ?thesis
    using roundtrip[OF c] c by (simp add: n)
qed

section \<open>Fixed serialization vectors\<close>

text \<open>
  Claim C2. The serializer produces the literal test vectors: \<open>intCV(1)\<close> is seventeen bytes,
  the tag 00 and the 16-byte big-endian block ending in 01; \<open>intCV(-1)\<close> is the tag 00 and
  sixteen bytes ff (two's complement); \<open>trueCV()\<close> is the single byte 03; the buffer
  de ad be ef is the tag 02, the 4-byte big-endian length 00000004 and the four bytes.
\<close>

theorem serializeCV_test_vectors:
  "toHex (serializeCV (IntCV 1)) = ''0000000000000000000000000000000001'' \<and>
   toHex (serializeCV (IntCV (- 1))) = ''00ffffffffffffffffffffffffffffffff'' \<and>
   toHex (serializeCV TrueCV) = ''03'' \<and>
   toHex (serializeCV (BufferCV [0xde, 0xad, 0xbe, 0xef])) = ''0200000004deadbeef''"
  by code_simp

section \<open>Canonical tuples\<close>

text \<open>
  Claim C3. Two tuples with the same key-value entries, supplied in any two insertion
  orders, serialize to the same bytes, because the entries are sorted by their key bytes
  before they are written. Consequently the keys of the deserialized tuple appear in
  byte-lexicographic order: they are the sorted list of the keys supplied.
\<close>

theorem tuple_canonical:
  assumes "distinct (map fst kvs)" and "distinct (map fst kvs')" and "set kvs = set kvs'"
  shows "serializeCV (TupleCV kvs) = serializeCV (TupleCV kvs') \<and>
         (constructible (TupleCV kvs) \<longrightarrow>
            (\<exists>es. deserializeCV (serializeCV (TupleCV kvs)) = Inr (TupleCV es) \<and>
                  map fst es = sort_key Buffer_from (map fst kvs') \<and>
                  sorted (map Buffer_from (map fst es))))"
proof -
  let ?es = "map (\<lambda>(k, v). (k, canonical v)) (sortedEntries kvs)"
  have se: "sortedEntries kvs = sortedEntries kvs'"
    by (rule sortedEntries_permutation[OF assms])
  have "length (sortedEntries kvs) = length (sortedEntries kvs')"
    by (simp only: se)
  then have "length kvs = length kvs'"
    by (simp only: length_sortedEntries)
  with se have ser: "serializeCV (TupleCV kvs) = serializeCV (TupleCV kvs')"
    by simp
  have "map fst ?es = map fst (sortedEntries kvs')"
    by (simp add: se case_prod_unfold comp_def)
  then have keys: "map fst ?es = sort_key Buffer_from (map fst kvs')"
    by (simp only: keys_sortedEntries)
  have srt: "sorted (map Buffer_from (map fst ?es))"
    unfolding keys by simp
  have "constructible (TupleCV kvs) \<longrightarrow>
            (\<exists>es. deserializeCV (serializeCV (TupleCV kvs)) = Inr (TupleCV es) \<and>
                  map fst es = sort_key Buffer_from (map fst kvs') \<and>
                  sorted (map Buffer_from (map fst es)))"
  proof
    assume "constructible (TupleCV kvs)"
    from deserialize_serialize[OF this]
    have "deserializeCV (serializeCV (TupleCV kvs)) = Inr (TupleCV ?es)"
      by simp
    with keys srt
    show "\<exists>es. deserializeCV (serializeCV (TupleCV kvs)) = Inr (TupleCV es) \<and>
                  map fst es = sort_key Buffer_from (map fst kvs') \<and>
                  sorted (map Buffer_from (map fst es))"
      by (intro exI[of _ ?es] conjI)
  qed
  with ser show ?thesis
    by (rule conjI)
qed

theorem tuple_canonical_witness:
  "distinct (map fst [(''b'', FalseCV), (''a'', TrueCV)]) \<and>
   distinct (map fst [(''a'', TrueCV), (''b'', FalseCV)]) \<and>
   set [(''b'', FalseCV), (''a'', TrueCV)] = set [(''a'', TrueCV), (''b'', FalseCV)] \<and>
   constructible (TupleCV [(''b'', FalseCV), (''a'', TrueCV)]) \<and>
   serializeCV (TupleCV [(''b'', FalseCV), (''a'', TrueCV)]) =
     serializeCV (TupleCV [(''a'', TrueCV), (''b'', FalseCV)]) \<and>
   (\<exists>es. deserializeCV (serializeCV (TupleCV [(''b'', FalseCV), (''a'', TrueCV)])) = Inr (TupleCV es) \<and>
         map fst es = [''a'', ''b''])"
proof -
  have d1: "distinct (map fst [(''b'', FalseCV), (''a'', TrueCV)])" by simp
  have d2: "distinct (map fst [(''a'', TrueCV), (''b'', FalseCV)])" by simp
  have s: "set [(''b'', FalseCV), (''a'', TrueCV)] = set [(''a'', TrueCV), (''b'', FalseCV)]" by auto
  have c: "constructible (TupleCV [(''b'', FalseCV), (''a'', TrueCV)])" by simp
  have k: "sort_key Buffer_from (map fst [(''a'', TrueCV), (''b'', FalseCV)]) = [''a'', ''b'']"
    by code_simp
  note t = tuple_canonical[OF d1 d2 s, unfolded k]
  from t have ser: "serializeCV (TupleCV [(''b'', FalseCV), (''a'', TrueCV)]) =
     serializeCV (TupleCV [(''a'', TrueCV), (''b'', FalseCV)])"
    by (rule conjunct1)
  from t[THEN conjunct2, rule_format, OF c]
  obtain es where "deserializeCV (serializeCV (TupleCV [(''b'', FalseCV), (''a'', TrueCV)])) = Inr (TupleCV es)"
    and "map fst es = [''a'', ''b'']"
    by (elim exE conjE)
  then have ex: "\<exists>es. deserializeCV (serializeCV (TupleCV [(''b'', FalseCV), (''a'', TrueCV)])) = Inr (TupleCV es) \<and>
         map fst es = [''a'', ''b'']"
    by (intro exI conjI)
  show ?thesis
    by (intro conjI d1 d2 s c ser ex)
qed

section \<open>Properties of the name registry operations\<close>

lemma Buffer_from_append: "Buffer_from (a @ b) = Buffer_from a @ Buffer_from b"
  by (simp add: Buffer_from_def)

text \<open>
  \<open>makeBnsContractCall\<close> passes the function name, the arguments, the key and the network
  on; the attachment of its options is not among the options of the unsigned contract call.
\<close>

lemma makeBnsContractCall_attachment:
  "makeBnsContractCall e (c\<lparr>call_attachment := a\<rparr>) = makeBnsContractCall e c"
  by (simp add: makeBnsContractCall_def)

subsection \<open>The preorder commitment\<close>

text \<open>
  A builder hands its options to \<open>makeBnsContractCall\<close>; on a network whose contract address
  resolves, the request of that call goes to \<open>makeUnsignedContractCall\<close>, and what that
  returns is the result of the builder.
\<close>

lemma makeBnsContractCall_request:
  "getBnsContractAddress e (call_network c) = Inr address \<Longrightarrow>
   makeBnsContractCall e c =
     makeUnsignedContractCall e
       (unsignedBnsCall address (call_functionName c) (call_functionArgs c) (call_publicKey c)
          (call_network c))"
  by (simp add: makeBnsContractCall_def unsignedBnsCall_def BNS_CONTRACT_NAME_def)

text \<open>
  Claim C4. \<open>buildPreorderNamespaceTx\<close> and \<open>buildPreorderNameTx\<close> (on a name without a
  subdomain) request a call of \<open>namespace-preorder\<close> and of \<open>name-preorder\<close> whose first
  function argument, the commitment, is the double hash, SHA-256 and then RIPEMD-160
  (\<open>hash160\<close>), of the bytes of the identifier (the namespace, or the fully qualified name)
  followed by the bytes of the salt; the second argument is the amount to burn. The
  commitment is a function of the identifier and the salt alone: the amount to burn, the key
  and the network do not enter it, so two invocations with the same identifier and salt give
  the same bytes.
\<close>

theorem preorder_commitment:
  assumes "getBnsContractAddress e network = Inr address"
  shows
   "buildPreorderNamespaceTx e namespace salt stxToBurn publicKey network =
      makeUnsignedContractCall e
        (unsignedBnsCall address ''namespace-preorder''
           [BufferCV (ripemd160 e (sha256 e (Buffer_from namespace @ Buffer_from salt))),
            UIntCV stxToBurn]
           publicKey network) \<and>
    (\<not> truthy (fqn_subdomain (decodeFQN e fullyQualifiedName)) \<longrightarrow>
     buildPreorderNameTx e fullyQualifiedName salt stxToBurn publicKey network =
       makeUnsignedContractCall e
         (unsignedBnsCall address ''name-preorder''
            [BufferCV (ripemd160 e (sha256 e (Buffer_from fullyQualifiedName @ Buffer_from salt))),
             UIntCV stxToBurn]
            publicKey network)) \<and>
    commitmentOf (buildPreorderNamespaceTx_call e namespace salt stxToBurn publicKey network) =
      Some (BufferCV (ripemd160 e (sha256 e (Buffer_from namespace @ Buffer_from salt)))) \<and>
    (\<not> truthy (fqn_subdomain (decodeFQN e fullyQualifiedName)) \<longrightarrow>
     commitmentOf (buildPreorderNameTx_call e fullyQualifiedName salt stxToBurn publicKey network) =
       Some (BufferCV (ripemd160 e (sha256 e (Buffer_from fullyQualifiedName @ Buffer_from salt)))))"
  using assms
  by (simp add: buildPreorderNamespaceTx_def buildPreorderNameTx_def
      buildPreorderNamespaceTx_call_def buildPreorderNameTx_call_def
      makeBnsContractCall_request commitmentOf_def
      hash160_def bufferCV_def uintCV_def Buffer_from_append Let_def)

theorem preorder_commitment_witness:
  "getBnsContractAddress sampleImports mainnet = Inr ''SP000000000000000000002Q6VF78'' \<and>
   \<not> truthy (fqn_subdomain (decodeFQN sampleImports ''bob.id'')) \<and>
   buildPreorderNamespaceTx sampleImports ''id'' ''salt'' 5 ''pk'' mainnet =
     Inr (unsignedBnsCall ''SP000000000000000000002Q6VF78'' ''namespace-preorder''
            [BufferCV (Buffer_from ''tlasdi''), UIntCV 5] ''pk'' mainnet) \<and>
   buildPreorderNameTx sampleImports ''bob.id'' ''salt'' 5 ''pk'' mainnet =
     Inr (unsignedBnsCall ''SP000000000000000000002Q6VF78'' ''name-preorder''
            [BufferCV (Buffer_from ''tlasdi.bob''), UIntCV 5] ''pk'' mainnet) \<and>
   commitmentOf (buildPreorderNameTx_call sampleImports ''bob.id'' ''salt'' 99 ''other'' testnet) =
     commitmentOf (buildPreorderNameTx_call sampleImports ''bob.id'' ''salt'' 5 ''pk'' mainnet)"
proof -
  have a: "getBnsContractAddress sampleImports mainnet = Inr ''SP000000000000000000002Q6VF78''"
    by (simp add: getBnsContractAddress_def sampleImports_def mainnet_def
        BnsContractAddress_mainnet_def)
  have a': "getBnsContractAddress sampleImports testnet = Inr ''ST000000000000000000002AMW42H''"
    by (simp add: getBnsContractAddress_def sampleImports_def testnet_def
        BnsContractAddress_testnet_def)
  have h: "\<not> truthy (fqn_subdomain (decodeFQN sampleImports ''bob.id''))"
    by (simp add: sampleImports_def sampleDecodeFQN_def)
  have d1: "ripemd160 sampleImports (sha256 sampleImports (Buffer_from ''id'' @ Buffer_from ''salt'')) =
              Buffer_from ''tlasdi''"
    and d2: "ripemd160 sampleImports (sha256 sampleImports (Buffer_from ''bob.id'' @ Buffer_from ''salt'')) =
              Buffer_from ''tlasdi.bob''"
    and m: "makeUnsignedContractCall sampleImports = Inr"
    by (simp_all add: sampleImports_def Buffer_from_def)
  note t = preorder_commitment[OF a, where namespace = "''id''" and salt = "''salt''"
             and stxToBurn = 5 and publicKey = "''pk''" and fullyQualifiedName = "''bob.id''"]
  note t' = preorder_commitment[OF a', where namespace = "''id''" and salt = "''salt''"
             and stxToBurn = 99 and publicKey = "''other''" and fullyQualifiedName = "''bob.id''"]
  from t have 1: "buildPreorderNamespaceTx sampleImports ''id'' ''salt'' 5 ''pk'' mainnet =
     Inr (unsignedBnsCall ''SP000000000000000000002Q6VF78'' ''namespace-preorder''
            [BufferCV (Buffer_from ''tlasdi''), UIntCV 5] ''pk'' mainnet)"
    unfolding d1 m by (elim conjE)
  from t h have 2: "buildPreorderNameTx sampleImports ''bob.id'' ''salt'' 5 ''pk'' mainnet =
     Inr (unsignedBnsCall ''SP000000000000000000002Q6VF78'' ''name-preorder''
            [BufferCV (Buffer_from ''tlasdi.bob''), UIntCV 5] ''pk'' mainnet)"
    unfolding d2 m by (elim conjE impE)
  from t t' h have 3:
    "commitmentOf (buildPreorderNameTx_call sampleImports ''bob.id'' ''salt'' 99 ''other'' testnet) =
     commitmentOf (buildPreorderNameTx_call sampleImports ''bob.id'' ''salt'' 5 ''pk'' mainnet)"
    by simp
  from a h 1 2 3 show ?thesis
    by (intro conjI)
qed

subsection \<open>Subdomains are rejected\<close>

text \<open>
  Claim C5. When the decoded name has a subdomain qualifier, each of the name operations
  (preorder, register, update, transfer, revoke, renew, and the queries \<open>canRegisterName\<close> and
  \<open>getNamePrice\<close>) throws its validation error. This holds whatever the other options, the
  network, the hashes, the transaction maker and the remote endpoint are: the error comes
  before any of them is used.
\<close>

theorem subdomain_rejected:
  assumes "truthy (fqn_subdomain (decodeFQN e fullyQualifiedName))"
  shows
   "buildPreorderNameTx e fullyQualifiedName salt stxToBurn publicKey network =
      Inl (Error ''Cannot preorder a subdomain using preorderName()'') \<and>
    buildRegisterNameTx e fullyQualifiedName salt zonefile publicKey network =
      Inl (Error ''Cannot register a subdomain using registerName()'') \<and>
    buildUpdateNameTx e fullyQualifiedName zonefile publicKey network =
      Inl (Error ''Cannot update a subdomain using updateName()'') \<and>
    buildTransferNameTx e fullyQualifiedName newOwnerAddress optionalZonefile publicKey network =
      Inl (Error ''Cannot transfer a subdomain using transferName()'') \<and>
    buildRevokeNameTx e fullyQualifiedName publicKey network =
      Inl (Error ''Cannot revoke a subdomain using revokeName()'') \<and>
    buildRenewNameTx e fullyQualifiedName stxToBurn optionalOwnerAddress optionalZonefile publicKey network =
      Inl (Error ''Cannot renew a subdomain using renewName()'') \<and>
    canRegisterName e fullyQualifiedName network =
      Inl (Error ''Cannot register a subdomain using registerName'') \<and>
    getNamePrice e fullyQualifiedName network =
      Inl (Error ''Cannot get subdomain name price'')"
  using assms
  by (simp add: buildPreorderNameTx_def buildPreorderNameTx_call_def
      buildRegisterNameTx_def buildRegisterNameTx_call_def
      buildUpdateNameTx_def buildUpdateNameTx_call_def
      buildTransferNameTx_def buildTransferNameTx_call_def
      buildRevokeNameTx_def buildRevokeNameTx_call_def
      buildRenewNameTx_def buildRenewNameTx_call_def
      canRegisterName_def getNamePrice_def Let_def)


theorem subdomain_rejected_witness:
  "truthy (fqn_subdomain (decodeFQN sampleImports ''www.bob.id'')) \<and>
   buildPreorderNameTx sampleImports ''www.bob.id'' ''salt'' 5 ''pk'' mainnet =
      Inl (Error ''Cannot preorder a subdomain using preorderName()'') \<and>
   buildRenewNameTx sampleImports ''www.bob.id'' 5 None (Some ''zone'') ''pk'' otherNetwork =
      Inl (Error ''Cannot renew a subdomain using renewName()'') \<and>
   getNamePrice failingImports ''www.bob.id'' mainnet =
      Inl (Error ''Cannot get subdomain name price'')"
proof -
  have h: "truthy (fqn_subdomain (decodeFQN sampleImports ''www.bob.id''))"
    by (simp add: sampleImports_def sampleDecodeFQN_def)
  have h': "truthy (fqn_subdomain (decodeFQN failingImports ''www.bob.id''))"
    by (simp add: failingImports_def sampleImports_def sampleDecodeFQN_def)
  from subdomain_rejected[OF h] subdomain_rejected[OF h'] h
  show ?thesis by simp
qed

subsection \<open>The contract address\<close>

text \<open>
  Claim C6. The contract address is resolved from the chain identifier of the network
  alone: the mainnet identifier gives the mainnet address, the testnet identifier gives the
  testnet address, and any other identifier makes the resolution, and with it every contract
  call and every read-only call, throw an error that names the identifier; no address is
  taken by default.
\<close>

theorem contract_address_by_chain:
  "(chainId network = ChainID_Mainnet e \<longrightarrow>
      getBnsContractAddress e network = Inr ''SP000000000000000000002Q6VF78'') \<and>
   (chainId network = ChainID_Testnet e \<and> ChainID_Testnet e \<noteq> ChainID_Mainnet e \<longrightarrow>
      getBnsContractAddress e network = Inr ''ST000000000000000000002AMW42H'') \<and>
   (chainId network \<noteq> ChainID_Mainnet e \<and> chainId network \<noteq> ChainID_Testnet e \<longrightarrow>
      getBnsContractAddress e network =
        Inl (Error (''Unexpected ChainID: '' @ numberToString (chainId network))) \<and>
      (call_network options = network \<longrightarrow>
         makeBnsContractCall e options =
           Inl (Error (''Unexpected ChainID: '' @ numberToString (chainId network)))) \<and>
      callReadOnlyBnsFunction e functionName senderAddress functionArgs network =
        Inl (Error (''Unexpected ChainID: '' @ numberToString (chainId network)))) \<and>
   (chainId network' = chainId network \<longrightarrow>
      getBnsContractAddress e network' = getBnsContractAddress e network)"
  by (auto simp: getBnsContractAddress_def makeBnsContractCall_def callReadOnlyBnsFunction_def
      BnsContractAddress_mainnet_def BnsContractAddress_testnet_def)

theorem contract_address_by_chain_witness:
  "getBnsContractAddress sampleImports mainnet = Inr ''SP000000000000000000002Q6VF78'' \<and>
   getBnsContractAddress sampleImports testnet = Inr ''ST000000000000000000002AMW42H'' \<and>
   getBnsContractAddress sampleImports otherNetwork = Inl (Error ''Unexpected ChainID: 5'') \<and>
   callReadOnlyBnsFunction sampleImports ''get-name-price'' ''ST1'' [] otherNetwork =
     Inl (Error ''Unexpected ChainID: 5'')"
proof -
  have n: "numberToString 5 = ''5''"
    by (simp add: numberToString_def)
  have ids: "chainId mainnet = ChainID_Mainnet sampleImports"
    "chainId testnet = ChainID_Testnet sampleImports \<and>
     ChainID_Testnet sampleImports \<noteq> ChainID_Mainnet sampleImports"
    "chainId otherNetwork \<noteq> ChainID_Mainnet sampleImports \<and>
     chainId otherNetwork \<noteq> ChainID_Testnet sampleImports"
    "chainId otherNetwork = 5"
    by (simp_all add: sampleImports_def mainnet_def testnet_def otherNetwork_def)
  from contract_address_by_chain[where network = mainnet and e = sampleImports and network' = mainnet]
       contract_address_by_chain[where network = testnet and e = sampleImports and network' = testnet]
       contract_address_by_chain[where network = otherNetwork and e = sampleImports
         and network' = otherNetwork and functionName = "''get-name-price''"
         and senderAddress = "''ST1''" and functionArgs = "[]"]
       ids n
  show ?thesis by simp
qed

subsection \<open>Contract-level errors of the read-only queries\<close>

text \<open>
  Claim C7, as stated: for each of \<open>canRegisterName\<close>, \<open>getNamespacePrice\<close> and
  \<open>getNamePrice\<close>, a Response-Err answer of the remote endpoint is propagated as an error
  with the rendering of the error value as its message. For \<open>canRegisterName\<close> this is not
  so: on the answer \<open>(err 1001)\<close> it resolves to \<open>false\<close>.
\<close>

theorem canRegisterName_error_counterexample:
  "callReadOnlyBnsFunction failingImports ''can-name-be-registered'' (randomAddress failingImports)
     [BufferCV (Buffer_from ''id''), BufferCV (Buffer_from ''bob'')] mainnet =
     Inr (ResponseErrorCV (IntCV 1001)) \<and>
   canRegisterName failingImports ''bob.id'' mainnet = Inr False \<and>
   canRegisterName failingImports ''bob.id'' mainnet \<noteq>
     Inl (Error (cvToString failingImports (IntCV 1001)))"
  by (simp add: canRegisterName_def callReadOnlyBnsFunction_def getBnsContractAddress_def
      failingImports_def sampleImports_def sampleDecodeFQN_def mainnet_def)

text \<open>
  Claim C7, amended. For \<open>getNamespacePrice\<close> and \<open>getNamePrice\<close>, when the remote endpoint
  returns a contract-level Response-Err value, the operation throws an error whose message
  is \<open>cvToString\<close> of the error value; \<open>canRegisterName\<close> resolves to \<open>false\<close> on such an
  answer.
\<close>

theorem remote_error_propagated:
  "(callReadOnlyBnsFunction e ''get-namespace-price'' (randomAddress e)
       [bufferCVFromString e namespace] network = Inr (ResponseErrorCV v) \<longrightarrow>
      getNamespacePrice e namespace network = Inl (Error (cvToString e v))) \<and>
   (\<not> truthy (fqn_subdomain (decodeFQN e fullyQualifiedName)) \<and>
    callReadOnlyBnsFunction e ''get-name-price'' (randomAddress e)
       [bufferCVFromString e (fqn_namespace (decodeFQN e fullyQualifiedName)),
        bufferCVFromString e (fqn_name (decodeFQN e fullyQualifiedName))] network =
      Inr (ResponseErrorCV v) \<longrightarrow>
      getNamePrice e fullyQualifiedName network = Inl (Error (cvToString e v))) \<and>
   (\<not> truthy (fqn_subdomain (decodeFQN e fullyQualifiedName)) \<and>
    callReadOnlyBnsFunction e ''can-name-be-registered'' (randomAddress e)
       [bufferCVFromString e (fqn_namespace (decodeFQN e fullyQualifiedName)),
        bufferCVFromString e (fqn_name (decodeFQN e fullyQualifiedName))] network =
      Inr (ResponseErrorCV v) \<longrightarrow>
      canRegisterName e fullyQualifiedName network = Inr False)"
  by (simp add: getNamespacePrice_def getNamePrice_def canRegisterName_def Let_def)

theorem remote_error_propagated_witness:
  "callReadOnlyBnsFunction failingImports ''get-namespace-price'' (randomAddress failingImports)
       [bufferCVFromString failingImports ''id''] mainnet = Inr (ResponseErrorCV (IntCV 1001)) \<and>
   getNamespacePrice failingImports ''id'' mainnet = Inl (Error ''1001'') \<and>
   \<not> truthy (fqn_subdomain (decodeFQN failingImports ''bob.id'')) \<and>
   getNamePrice failingImports ''bob.id'' mainnet = Inl (Error ''1001'') \<and>
   canRegisterName failingImports ''bob.id'' mainnet = Inr False"
proof -
  have r: "\<And>f a. callReadOnlyBnsFunction failingImports f (randomAddress failingImports) a mainnet =
             Inr (ResponseErrorCV (IntCV 1001))"
    by (simp add: callReadOnlyBnsFunction_def getBnsContractAddress_def failingImports_def
        sampleImports_def mainnet_def)
  have h: "\<not> truthy (fqn_subdomain (decodeFQN failingImports ''bob.id''))"
    by (simp add: failingImports_def sampleImports_def sampleDecodeFQN_def)
  have s: "cvToString failingImports (IntCV 1001) = ''1001''"
    by (simp add: failingImports_def sampleImports_def numberToString_def)
  from remote_error_propagated[where e = failingImports and network = mainnet
         and v = "IntCV 1001" and namespace = "''id''" and fullyQualifiedName = "''bob.id''"]
       r h s
  show ?thesis by simp
qed

subsection \<open>The optional zone file of a transfer and of a renewal\<close>

text \<open>
  Claim C10, as stated: the function arguments carry a trailing zone file hash, and the
  resulting transaction request carries the zone file bytes as an attachment, if and only if
  the zone file option is supplied. With the empty string supplied as the zone file,
  \<open>buildTransferNameTx\<close> requests a call with the three base arguments only. With the zone
  file \<open>zone\<close> supplied, the request that results has the hash argument and no attachment: the
  builder hands the bytes to \<open>makeBnsContractCall\<close>, which does not read them (lemma
  \<open>makeBnsContractCall_attachment\<close>).
\<close>

theorem optional_zonefile_counterexample:
  "buildTransferNameTx sampleImports ''bob.id'' ''SP1'' (Some []) ''pk'' mainnet =
     Inr \<lparr>tx_contractAddress = ''SP000000000000000000002Q6VF78'',
          tx_contractName = ''bns'',
          tx_functionName = ''name-transfer'',
          tx_functionArgs =
            [BufferCV (Buffer_from ''id''), BufferCV (Buffer_from ''bob''),
             BufferCV (Buffer_from ''SP1'')],
          tx_publicKey = ''pk'',
          tx_validateWithAbi = False,
          tx_network = mainnet,
          tx_anchorMode = Any\<rparr> \<and>
   buildTransferNameTx sampleImports ''bob.id'' ''SP1'' (Some ''zone'') ''pk'' mainnet =
     Inr \<lparr>tx_contractAddress = ''SP000000000000000000002Q6VF78'',
          tx_contractName = ''bns'',
          tx_functionName = ''name-transfer'',
          tx_functionArgs =
            [BufferCV (Buffer_from ''id''), BufferCV (Buffer_from ''bob''),
             BufferCV (Buffer_from ''SP1''), BufferCV (Buffer_from ''enoz'')],
          tx_publicKey = ''pk'',
          tx_validateWithAbi = False,
          tx_network = mainnet,
          tx_anchorMode = Any\<rparr>"
  by (simp add: buildTransferNameTx_def buildTransferNameTx_call_def makeBnsContractCall_def
      getBnsContractAddress_def BnsContractAddress_mainnet_def BNS_CONTRACT_NAME_def
      bufferCV_def sampleImports_def sampleDecodeFQN_def mainnet_def Buffer_from_def)

text \<open>
  Claim C10, amended. For \<open>buildTransferNameTx\<close> and \<open>buildRenewNameTx\<close>, on a name without a
  subdomain and a network whose contract address resolves, the function arguments of the
  requested call carry a trailing zone file hash if and only if the zone file option is
  supplied and is not the empty string: then they are the base arguments followed by the
  hash of the zone file; when the option is absent or empty they are the base arguments
  alone.
\<close>

theorem zonefile_hash_argument:
  assumes "\<not> truthy (fqn_subdomain (decodeFQN e fullyQualifiedName))"
    and "getBnsContractAddress e network = Inr address"
  shows
   "(\<forall>z. zonefile = Some z \<and> z \<noteq> [] \<longrightarrow>
       buildTransferNameTx e fullyQualifiedName newOwnerAddress zonefile publicKey network =
         makeUnsignedContractCall e
           (unsignedBnsCall address ''name-transfer''
              (transferBaseArgs e fullyQualifiedName newOwnerAddress @
               [BufferCV (getZonefileHash e z)])
              publicKey network) \<and>
       buildRenewNameTx e fullyQualifiedName stxToBurn optionalOwnerAddress zonefile
           publicKey network =
         makeUnsignedContractCall e
           (unsignedBnsCall address ''name-renewal''
              (renewBaseArgs e fullyQualifiedName stxToBurn optionalOwnerAddress @
               [BufferCV (getZonefileHash e z)])
              publicKey network)) \<and>
    (zonefile = None \<or> zonefile = Some [] \<longrightarrow>
       buildTransferNameTx e fullyQualifiedName newOwnerAddress zonefile publicKey network =
         makeUnsignedContractCall e
           (unsignedBnsCall address ''name-transfer''
              (transferBaseArgs e fullyQualifiedName newOwnerAddress)
              publicKey network) \<and>
       buildRenewNameTx e fullyQualifiedName stxToBurn optionalOwnerAddress zonefile
           publicKey network =
         makeUnsignedContractCall e
           (unsignedBnsCall address ''name-renewal''
              (renewBaseArgs e fullyQualifiedName stxToBurn optionalOwnerAddress)
              publicKey network))"
  using assms
  by (cases zonefile; cases optionalOwnerAddress)
     (simp_all add: buildTransferNameTx_def buildTransferNameTx_call_def
        buildRenewNameTx_def buildRenewNameTx_call_def makeBnsContractCall_request
        transferBaseArgs_def renewBaseArgs_def bufferCV_def Let_def)

theorem zonefile_hash_argument_witness:
  "\<not> truthy (fqn_subdomain (decodeFQN sampleImports ''bob.id'')) \<and>
   getBnsContractAddress sampleImports mainnet = Inr ''SP000000000000000000002Q6VF78'' \<and>
   buildTransferNameTx sampleImports ''bob.id'' ''SP1'' (Some ''zone'') ''pk'' mainnet =
     Inr (unsignedBnsCall ''SP000000000000000000002Q6VF78'' ''name-transfer''
            [BufferCV (Buffer_from ''id''), BufferCV (Buffer_from ''bob''),
             BufferCV (Buffer_from ''SP1''), BufferCV (Buffer_from ''enoz'')]
            ''pk'' mainnet) \<and>
   buildRenewNameTx sampleImports ''bob.id'' 5 None None ''pk'' mainnet =
     Inr (unsignedBnsCall ''SP000000000000000000002Q6VF78'' ''name-renewal''
            [BufferCV (Buffer_from ''id''), BufferCV (Buffer_from ''bob''), UIntCV 5]
            ''pk'' mainnet)"
proof -
  have h: "\<not> truthy (fqn_subdomain (decodeFQN sampleImports ''bob.id''))"
    by (simp add: sampleImports_def sampleDecodeFQN_def)
  have a: "getBnsContractAddress sampleImports mainnet = Inr ''SP000000000000000000002Q6VF78''"
    by (simp add: getBnsContractAddress_def sampleImports_def mainnet_def
        BnsContractAddress_mainnet_def)
  have b: "transferBaseArgs sampleImports ''bob.id'' ''SP1'' =
             [BufferCV (Buffer_from ''id''), BufferCV (Buffer_from ''bob''), BufferCV (Buffer_from ''SP1'')]"
    and r: "renewBaseArgs sampleImports ''bob.id'' 5 None =
             [BufferCV (Buffer_from ''id''), BufferCV (Buffer_from ''bob''), UIntCV 5]"
    and z: "getZonefileHash sampleImports ''zone'' = Buffer_from ''enoz''"
    and m: "makeUnsignedContractCall sampleImports = Inr"
    by (simp_all add: transferBaseArgs_def renewBaseArgs_def sampleImports_def sampleDecodeFQN_def
        uintCV_def Buffer_from_def)
  from zonefile_hash_argument[OF h a, where zonefile = "Some ''zone''"
         and newOwnerAddress = "''SP1''" and publicKey = "''pk''"
         and stxToBurn = 5 and optionalOwnerAddress = None]
  have 1: "buildTransferNameTx sampleImports ''bob.id'' ''SP1'' (Some ''zone'') ''pk'' mainnet =
     Inr (unsignedBnsCall ''SP000000000000000000002Q6VF78'' ''name-transfer''
            [BufferCV (Buffer_from ''id''), BufferCV (Buffer_from ''bob''),
             BufferCV (Buffer_from ''SP1''), BufferCV (Buffer_from ''enoz'')]
            ''pk'' mainnet)"
    by (simp add: b z m)
  from zonefile_hash_argument[OF h a, where zonefile = None
         and newOwnerAddress = "''SP1''" and publicKey = "''pk''"
         and stxToBurn = 5 and optionalOwnerAddress = None]
  have 2: "buildRenewNameTx sampleImports ''bob.id'' 5 None None ''pk'' mainnet =
     Inr (unsignedBnsCall ''SP000000000000000000002Q6VF78'' ''name-renewal''
            [BufferCV (Buffer_from ''id''), BufferCV (Buffer_from ''bob''), UIntCV 5]
            ''pk'' mainnet)"
    by (simp add: r m)
  from h a 1 2 show ?thesis
    by (intro conjI)
qed

section \<open>Properties of the instance data store\<close>

lemma setSessionData_installs:
  "sessionData (snd (setSessionData cls session this)) = Some session"
  by (simp add: setSessionData_def Let_def split: option.split)

lemma setSessionData_result:
  "fst (setSessionData cls session this) =
     (case thrownByCallback cls session this of None \<Rightarrow> Inr True | Some x \<Rightarrow> Inl x)"
  by (simp add: setSessionData_def thrownByCallback_def Let_def split: option.split)

lemma deleteSessionData_state:
  "snd (deleteSessionData cls this) =
     snd (setSessionData cls (newSessionData cls (emptyOptions cls)) this)"
  by (simp add: deleteSessionData_def split: prod.split sum.split)

lemma deleteSessionData_installs:
  "sessionData (snd (deleteSessionData cls this)) = Some (newSessionData cls (emptyOptions cls))"
  by (simp add: deleteSessionData_state setSessionData_installs)

lemma deleteSessionData_result:
  "fst (deleteSessionData cls this) =
     (case thrownByCallback cls (newSessionData cls (emptyOptions cls)) this of
        None \<Rightarrow> Inr True
      | Some x \<Rightarrow> Inl x)"
proof -
  have "fst (deleteSessionData cls this) =
          (case fst (setSessionData cls (newSessionData cls (emptyOptions cls)) this) of
             Inl x \<Rightarrow> Inl x
           | Inr r \<Rightarrow> Inr True)"
    by (simp add: deleteSessionData_def split: prod.split sum.split)
  then show ?thesis
    by (simp add: setSessionData_result split: option.split)
qed

text \<open>
  On a store without a callback, as the constructors have it, \<open>setSessionData\<close> returns.
\<close>

lemma setSessionData_no_callback:
  "identityChangeCallback this = None \<Longrightarrow>
   setSessionData cls session this =
     (Inr True, this\<lparr>sessionData := Some session,
                     lastUpdatedIdentity := currentIdentityOf cls session\<rparr>)"
  by (simp add: setSessionData_def Let_def)

lemma constructor_installs:
  "\<exists>store. InstanceDataStore_constructor cls sessionOptions = Inr store \<and>
     sessionData store =
       Some (case sessionOptions of
               None \<Rightarrow> newSessionData cls (emptyOptions cls)
             | Some opts \<Rightarrow> newSessionData cls opts)"
  by (cases sessionOptions)
     (simp_all add: InstanceDataStore_constructor_def SessionDataStore_constructor_def Let_def
        setSessionData_no_callback)

lemma call_keeps_session:
  "sessionData this \<noteq> None \<Longrightarrow> sessionData (call cls c this) \<noteq> None"
  by (cases c)
     (simp_all add: setSessionIdentityChangeCallback_def setSessionData_installs
        deleteSessionData_installs)

lemma afterCalls_keeps_session:
  "sessionData this \<noteq> None \<Longrightarrow> sessionData (afterCalls cls calls this) \<noteq> None"
proof (induction calls arbitrary: this)
  case Nil
  then show ?case by (simp add: afterCalls_def)
next
  case (Cons c calls)
  from Cons.prems have "sessionData (call cls c this) \<noteq> None"
    by (rule call_keeps_session)
  from Cons.IH[OF this] show ?case
    by (simp add: afterCalls_def)
qed

text \<open>
  Claim C8, as stated: \<open>setSessionData\<close> and \<open>deleteSessionData\<close> always return \<open>true\<close>. On a
  store with an identity change callback that throws they do not: the store that the
  constructor builds, given such a callback, throws from \<open>setSessionData\<close> with a session of
  another identity, and from \<open>deleteSessionData\<close> once it holds a session with an identity.
\<close>

theorem throwing_callback_counterexample:
  "InstanceDataStore_constructor sampleSessionClass None = Inr emptyStore \<and>
   fst (setSessionData sampleSessionClass (Some ''alice'')
          (setSessionIdentityChangeCallback (Some throwingCallback) emptyStore)) =
     Inl ''callback failed'' \<and>
   fst (deleteSessionData sampleSessionClass
          (setSessionIdentityChangeCallback (Some throwingCallback)
             (snd (setSessionData sampleSessionClass (Some ''alice'') emptyStore)))) =
     Inl ''callback failed''"
  by (simp add: InstanceDataStore_constructor_def SessionDataStore_constructor_def
      setSessionData_def deleteSessionData_def setSessionIdentityChangeCallback_def
      currentIdentityOf_def sampleSessionClass_def throwingCallback_def emptyStore_def Let_def)

text \<open>
  Claim C8, amended. Once an \<open>InstanceDataStore\<close> is constructed, with or without session
  options, \<open>getSessionData\<close> never throws, whatever calls have been made on the store since
  and whether they returned or threw. The constructor returns, and installs an empty
  \<open>SessionData\<close> when none exists; \<open>deleteSessionData\<close> replaces the stored session with a
  fresh empty \<open>SessionData\<close>, and \<open>setSessionData\<close> stores the session it is given, also when
  they throw. \<open>setSessionData\<close> and \<open>deleteSessionData\<close> return \<open>true\<close> unless the identity
  change callback is called and throws; then its exception leaves the method.
\<close>

theorem instance_store_always_has_session:
  "(\<exists>store :: ('sd, 'ex) InstanceDataStore.
      InstanceDataStore_constructor (cls :: ('o, 'sd) SessionDataClass) sessionOptions = Inr store \<and>
      (\<forall>calls. \<exists>session. getSessionData (afterCalls cls calls store) = Inr session)) \<and>
   (\<exists>store. InstanceDataStore_constructor cls None = Inr store \<and>
      sessionData store = Some (newSessionData cls (emptyOptions cls))) \<and>
   getSessionData (snd (deleteSessionData cls this)) = Inr (newSessionData cls (emptyOptions cls)) \<and>
   getSessionData (snd (setSessionData cls session' this)) = Inr session' \<and>
   fst (setSessionData cls session' this) =
     (case thrownByCallback cls session' this of None \<Rightarrow> Inr True | Some x \<Rightarrow> Inl x) \<and>
   fst (deleteSessionData cls this) =
     (case thrownByCallback cls (newSessionData cls (emptyOptions cls)) this of
        None \<Rightarrow> Inr True
      | Some x \<Rightarrow> Inl x)"
proof -
  obtain store :: "('sd, 'ex) InstanceDataStore"
    where c: "InstanceDataStore_constructor cls sessionOptions = Inr store"
      and s: "sessionData store \<noteq> None"
    using constructor_installs[of cls sessionOptions] by auto
  have "\<exists>session. getSessionData (afterCalls cls calls store) = Inr session" for calls
    using afterCalls_keeps_session[OF s, of cls calls] by (auto simp: getSessionData_def)
  then have "\<forall>calls. \<exists>session. getSessionData (afterCalls cls calls store) = Inr session"
    by (rule allI)
  with c have 1: "\<exists>store :: ('sd, 'ex) InstanceDataStore.
      InstanceDataStore_constructor cls sessionOptions = Inr store \<and>
      (\<forall>calls. \<exists>session. getSessionData (afterCalls cls calls store) = Inr session)"
    by (intro exI[of _ store] conjI)
  have 2: "\<exists>store. InstanceDataStore_constructor cls None = Inr store \<and>
      sessionData store = Some (newSessionData cls (emptyOptions cls))"
    using constructor_installs[of cls None] by simp
  have 3: "getSessionData (snd (deleteSessionData cls this)) =
             Inr (newSessionData cls (emptyOptions cls))"
    by (simp add: getSessionData_def deleteSessionData_installs)
  have 4: "getSessionData (snd (setSessionData cls session' this)) = Inr session'"
    by (simp add: getSessionData_def setSessionData_installs)
  from 1 2 3 4 setSessionData_result[of cls session' this] deleteSessionData_result[of cls this]
  show ?thesis
    by (intro conjI)
qed

theorem instance_store_always_has_session_witness:
  "thrownByCallback sampleSessionClass (Some ''alice'') emptyStore = None \<and>
   fst (setSessionData sampleSessionClass (Some ''alice'') emptyStore) = Inr True \<and>
   getSessionData (snd (setSessionData sampleSessionClass (Some ''alice'') emptyStore)) =
     Inr (Some ''alice'') \<and>
   thrownByCallback sampleSessionClass None
     (setSessionIdentityChangeCallback (Some throwingCallback)
        (snd (setSessionData sampleSessionClass (Some ''alice'') emptyStore))) =
     Some ''callback failed'' \<and>
   getSessionData (snd (deleteSessionData sampleSessionClass
     (setSessionIdentityChangeCallback (Some throwingCallback)
        (snd (setSessionData sampleSessionClass (Some ''alice'') emptyStore))))) = Inr None"
proof -
  let ?s = "setSessionIdentityChangeCallback (Some throwingCallback)
        (snd (setSessionData sampleSessionClass (Some ''alice'') emptyStore))"
  have t1: "thrownByCallback sampleSessionClass (Some ''alice'') emptyStore = None"
    by (simp add: thrownByCallback_def emptyStore_def)
  have t2: "thrownByCallback sampleSessionClass None ?s = Some ''callback failed''"
    by (simp add: thrownByCallback_def setSessionIdentityChangeCallback_def setSessionData_def
        currentIdentityOf_def sampleSessionClass_def throwingCallback_def emptyStore_def Let_def)
  have e: "newSessionData sampleSessionClass (emptyOptions sampleSessionClass) = None"
    by (simp add: sampleSessionClass_def)
  note a = instance_store_always_has_session[where cls = sampleSessionClass
         and sessionOptions = None and this = emptyStore and session' = "Some ''alice''"]
  note b = instance_store_always_has_session[where cls = sampleSessionClass
         and sessionOptions = None and this = ?s and session' = "Some ''alice''"]
  from a have 4: "getSessionData (snd (setSessionData sampleSessionClass (Some ''alice'') emptyStore)) =
     Inr (Some ''alice'')"
    by (elim conjE)
  from a have "fst (setSessionData sampleSessionClass (Some ''alice'') emptyStore) =
     (case thrownByCallback sampleSessionClass (Some ''alice'') emptyStore of
        None \<Rightarrow> Inr True | Some x \<Rightarrow> Inl x)"
    by (elim conjE)
  then have 5: "fst (setSessionData sampleSessionClass (Some ''alice'') emptyStore) = Inr True"
    by (simp add: t1)
  from b have "getSessionData (snd (deleteSessionData sampleSessionClass ?s)) =
     Inr (newSessionData sampleSessionClass (emptyOptions sampleSessionClass))"
    by (elim conjE)
  then have 3: "getSessionData (snd (deleteSessionData sampleSessionClass ?s)) = Inr None"
    by (simp only: e)
  from t1 5 4 t2 3 show ?thesis
    by (intro conjI)
qed

section \<open>Properties of the token file URL\<close>

text \<open>
  Claim C9. On a parsed zone file, \<open>getTokenFileUrl\<close> returns \<open>null\<close> exactly when the JSON
  has no \<open>uri\<close> property, or its \<open>uri\<close> is not an array, or the array is empty, or the first
  \<open>uri\<close> record has no target. Otherwise it returns the target of the first record: unchanged
  when the target starts with \<open>http\<close> (so also with \<open>https\<close>), and with \<open>https://\<close> put before it
  when it does not. In every case it returns.
\<close>

theorem token_file_url:
  assumes "parsedZoneFile zoneFileJson"
  shows "(\<exists>result. getTokenFileUrl zoneFileJson = Inr result) \<and>
         (getTokenFileUrl zoneFileJson = Inr None \<longleftrightarrow>
            property zoneFileJson ''uri'' = None \<or>
            (\<exists>u. property zoneFileJson ''uri'' = Some u \<and> (\<forall>uri. u \<noteq> JArray uri)) \<or>
            property zoneFileJson ''uri'' = Some (JArray []) \<or>
            (\<exists>firstUriRecord rest.
               property zoneFileJson ''uri'' = Some (JArray (firstUriRecord # rest)) \<and>
               property firstUriRecord ''target'' = None)) \<and>
         (\<forall>firstUriRecord rest target.
            property zoneFileJson ''uri'' = Some (JArray (firstUriRecord # rest)) \<and>
            property firstUriRecord ''target'' = Some (JString target) \<longrightarrow>
            getTokenFileUrl zoneFileJson =
              Inr (Some (if prefix ''http'' target then target else ''https://'' @ target)))"
proof -
  obtain members where j: "zoneFileJson = JObject members"
    using assms by (cases zoneFileJson) auto
  have https: "\<And>t. prefix ''https'' t \<Longrightarrow> prefix ''http'' t"
    by (auto simp: prefix_def)
  show ?thesis
  proof (cases "map_of members ''uri''")
    case None
    then show ?thesis by (simp add: j getTokenFileUrl_def)
  next
    case (Some u)
    show ?thesis
    proof (cases u)
      case (JArray uri)
      show ?thesis
      proof (cases uri)
        case Nil
        then show ?thesis using Some JArray by (simp add: j getTokenFileUrl_def)
      next
        case (Cons r rest)
        then have "uriRecord r"
          using assms Some JArray by (simp add: j)
        then obtain ms where r: "r = JObject ms"
          by (cases r) auto
        show ?thesis
        proof (cases "map_of ms ''target''")
          case None
          then show ?thesis using Some JArray Cons r by (simp add: j getTokenFileUrl_def)
        next
          case (Some t)
          then obtain target where t: "t = JString target"
            using \<open>uriRecord r\<close> r by (cases t) auto
          show ?thesis
            using Some \<open>map_of members ''uri'' = Some u\<close> JArray Cons r t https[of target]
            by (auto simp: j getTokenFileUrl_def)
        qed
      qed
    qed (use Some in \<open>simp_all add: j getTokenFileUrl_def\<close>)
  qed
qed

theorem token_file_url_witness:
  "parsedZoneFile (sampleZoneFile ''example.com/bob.json'') \<and>
   getTokenFileUrl (sampleZoneFile ''example.com/bob.json'') =
     Inr (Some ''https://example.com/bob.json'') \<and>
   parsedZoneFile (sampleZoneFile ''http://example.com/bob.json'') \<and>
   getTokenFileUrl (sampleZoneFile ''http://example.com/bob.json'') =
     Inr (Some ''http://example.com/bob.json'') \<and>
   parsedZoneFile (JObject [(''$origin'', JString ''bob.id'')]) \<and>
   getTokenFileUrl (JObject [(''$origin'', JString ''bob.id'')]) = Inr None"
proof -
  have h1: "parsedZoneFile (sampleZoneFile ''example.com/bob.json'')"
    and h2: "parsedZoneFile (sampleZoneFile ''http://example.com/bob.json'')"
    and h3: "parsedZoneFile (JObject [(''$origin'', JString ''bob.id'')])"
    by (simp_all add: sampleZoneFile_def)
  have p: "\<And>t. property (sampleZoneFile t) ''uri'' =
             Some (JArray [JObject [(''name'', JString ''_http._tcp''), (''target'', JString t),
                     (''priority'', JNumber 10), (''weight'', JNumber 1)]])"
    by (simp add: sampleZoneFile_def)
  have q: "\<And>t. property (JObject [(''name'', JString ''_http._tcp''), (''target'', JString t),
                     (''priority'', JNumber 10), (''weight'', JNumber 1)]) ''target'' = Some (JString t)"
    by simp
  have n1: "\<not> prefix ''http'' ''example.com/bob.json''"
    and n2: "prefix ''http'' ''http://example.com/bob.json''"
    by simp_all
  from token_file_url[OF h1, THEN conjunct2, THEN conjunct2, rule_format, OF conjI, OF p q]
  have 1: "getTokenFileUrl (sampleZoneFile ''example.com/bob.json'') =
     Inr (Some ''https://example.com/bob.json'')"
    using n1 by simp
  from token_file_url[OF h2, THEN conjunct2, THEN conjunct2, rule_format, OF conjI, OF p q]
  have 2: "getTokenFileUrl (sampleZoneFile ''http://example.com/bob.json'') =
     Inr (Some ''http://example.com/bob.json'')"
    using n2 by simp
  from token_file_url[OF h3, THEN conjunct2, THEN conjunct1]
  have 3: "getTokenFileUrl (JObject [(''$origin'', JString ''bob.id'')]) = Inr None"
    by simp
  from h1 h2 h3 1 2 3 show ?thesis
    by (intro conjI)
qed

end
